theory Spec2Isabelle
  imports Main "HOL-Library.Word" "HOL-Library.Sublist"
begin

unbundle bit_operations_syntax

section \<open>The ICMP prober of \<^verbatim>\<open>prober/icmp.go\<close>\<close>

text \<open>
  \<^verbatim>\<open>ProbeICMP\<close> sends one ICMP echo request and waits for the matching reply. It is
  modelled as a function of the environment it runs in and of the global sequence
  counter; it returns the result (\<open>None\<close> while the receive loop has not returned), the
  counter it leaves, and the trace of its effects.
\<close>

subsection \<open>Data\<close>

type_synonym byte = "8 word"

type_synonym bytes = "byte list"

text \<open>
  A \<^verbatim>\<open>time.Time\<close> holds a wall-clock reading, counted here in nanoseconds from the zero
  value of the type, and it may hold a monotonic-clock reading, in nanoseconds:
  \<^verbatim>\<open>time.Now()\<close> gives both, a time built from a date and the zero value have the wall
  reading only. A \<^verbatim>\<open>time.Duration\<close> is a signed 64-bit count of nanoseconds.
\<close>

type_synonym Duration = int

record Time =
  wall :: int
  monotonic :: "int option"

definition zero_Time :: Time where
  "zero_Time = \<lparr>wall = 0, monotonic = None\<rparr>"

definition IsZero :: "Time \<Rightarrow> bool" where
  "IsZero t \<longleftrightarrow> wall t = 0"

definition minDuration :: Duration where
  "minDuration = - (2 ^ 63)"

definition maxDuration :: Duration where
  "maxDuration = 2 ^ 63 - 1"

definition saturate :: "int \<Rightarrow> Duration" where
  "saturate d =
     (if d < minDuration then minDuration
      else if maxDuration < d then maxDuration
      else d)"

text \<open>
  \<^verbatim>\<open>t.Sub(u)\<close> is the duration \<open>t - u\<close>: the difference of the monotonic readings when
  both times carry one, of the wall readings otherwise. A difference that does not fit a
  \<^verbatim>\<open>Duration\<close> is replaced by the nearest bound. \<^verbatim>\<open>t.Equal(u)\<close> compares the same
  readings.
\<close>

definition Time_Sub :: "Time \<Rightarrow> Time \<Rightarrow> Duration" where
  "Time_Sub t u =
     (case monotonic t of
        None \<Rightarrow> saturate (wall t - wall u)
      | Some a \<Rightarrow>
          (case monotonic u of
             None \<Rightarrow> saturate (wall t - wall u)
           | Some b \<Rightarrow> saturate (a - b)))"

definition Time_Equal :: "Time \<Rightarrow> Time \<Rightarrow> bool" where
  "Time_Equal t u =
     (case monotonic t of
        None \<Rightarrow> wall t = wall u
      | Some a \<Rightarrow>
          (case monotonic u of
             None \<Rightarrow> wall t = wall u
           | Some b \<Rightarrow> a = b))"

text \<open>
  \<^verbatim>\<open>t.Add(d)\<close> moves both readings by \<open>d\<close>. The result keeps a monotonic reading only
  while its wall second fits the 33-bit field that counts the seconds from the year 1885
  (\<open>wallToInternal\<close> seconds after the zero value) and the moved monotonic reading fits
  64 bits; otherwise it is a wall-only time.
\<close>

definition wallToInternal :: int where
  "wallToInternal = (1884 * 365 + 1884 div 4 - 1884 div 100 + 1884 div 400) * 86400"

definition packed_wall :: "int \<Rightarrow> bool" where
  "packed_wall w \<longleftrightarrow>
     0 \<le> w div 1000000000 - wallToInternal \<and>
     w div 1000000000 - wallToInternal \<le> 2 ^ 33 - 1"

definition Time_Add :: "Time \<Rightarrow> Duration \<Rightarrow> Time" where
  "Time_Add t d =
     \<lparr>wall = wall t + d,
      monotonic =
        (case monotonic t of
           None \<Rightarrow> None
         | Some m \<Rightarrow>
             if packed_wall (wall t + d) \<and> minDuration \<le> m + d \<and> m + d \<le> maxDuration
             then Some (m + d) else None)\<rparr>"

text \<open>
  \<open>not_after t u\<close>: the reading \<open>t\<close> was not taken after \<open>u\<close>, on the wall clock and, where
  both carry one, on the monotonic clock.
\<close>

definition not_after :: "Time \<Rightarrow> Time \<Rightarrow> bool" where
  "not_after t u \<longleftrightarrow>
     wall t \<le> wall u \<and>
     (case monotonic t of
        None \<Rightarrow> True
      | Some a \<Rightarrow> (case monotonic u of None \<Rightarrow> True | Some b \<Rightarrow> a \<le> b))"

text \<open>
  A Go \<^verbatim>\<open>error\<close> value: either a plain error, or a \<^verbatim>\<open>net.Error\<close>, which carries
  what its \<^verbatim>\<open>Timeout()\<close> answers. \<open>timeout_error\<close> is the test of line 118,
  \<^verbatim>\<open>nerr, ok := err.(net.Error); ok && nerr.Timeout()\<close>.
\<close>

datatype error =
    PlainError string
  | NetError bool string

fun timeout_error :: "error \<Rightarrow> bool" where
  "timeout_error (PlainError _) = False"
| "timeout_error (NetError timeout _) = timeout"

text \<open>
  What \<^verbatim>\<open>ProbeICMP\<close> observes of a \<^verbatim>\<open>net.IPAddr\<close>: whether \<^verbatim>\<open>IP.To4()\<close> is nil, and
  its string form.
\<close>

record IPAddr =
  To4_nil :: bool
  String :: string

text \<open>
  \<^verbatim>\<open>icmp.Type\<close> is an interface; its two implementations are the integer types
  \<^verbatim>\<open>ipv4.ICMPType\<close> and \<^verbatim>\<open>ipv6.ICMPType\<close>. Two interface values are equal when both
  the dynamic type and the number agree.
\<close>

datatype icmp_Type =
    ipv4_ICMPType int
  | ipv6_ICMPType int

definition ipv4_ICMPTypeEcho :: icmp_Type where
  "ipv4_ICMPTypeEcho = ipv4_ICMPType 8"

definition ipv4_ICMPTypeEchoReply :: icmp_Type where
  "ipv4_ICMPTypeEchoReply = ipv4_ICMPType 0"

definition ipv6_ICMPTypeEchoRequest :: icmp_Type where
  "ipv6_ICMPTypeEchoRequest = ipv6_ICMPType 128"

definition ipv6_ICMPTypeEchoReply :: icmp_Type where
  "ipv6_ICMPTypeEchoReply = ipv6_ICMPType 129"

record icmp_Echo =
  ID :: int
  Seq :: int
  Data :: bytes

record icmp_Message =
  Type :: icmp_Type
  Code :: int
  Body :: icmp_Echo

datatype level = Info | Warn | Error

text \<open>What one call of \<^verbatim>\<open>socket.ReadFrom(rb)\<close> delivers: an error, or a datagram and its sender.\<close>

datatype read_result =
    ReadErr error
  | ReadOK bytes IPAddr

text \<open>
  The effects of a probe, in the order they happen: log lines and the calls made on
  the socket (\<^verbatim>\<open>ListenPacket\<close> and \<^verbatim>\<open>ReadFrom\<close> with what they returned).
\<close>

datatype event =
    Log level string
  | ListenPacket_call string string "error option"
  | Close_call
  | WriteTo_call bytes IPAddr
  | SetReadDeadline_call Time
  | ReadFrom_call read_result

subsection \<open>The sequence counter\<close>

record globals =
  icmpSequence :: "16 word"

text \<open>
  \<^verbatim>\<open>getICMPSequence\<close>: under the mutex, \<^verbatim>\<open>icmpSequence++\<close> and return the new value.
\<close>

definition getICMPSequence :: "globals \<Rightarrow> 16 word \<times> globals" where
  "getICMPSequence g =
     (let g' = g\<lparr>icmpSequence := icmpSequence g + 1\<rparr>
      in (icmpSequence g', g'))"

text \<open>\<open>calls n g\<close>: the values returned by \<open>n\<close> calls made one after the other, and the state left.\<close>

fun calls :: "nat \<Rightarrow> globals \<Rightarrow> 16 word list \<times> globals" where
  "calls 0 g = ([], g)"
| "calls (Suc n) g =
     (let (v, g') = getICMPSequence g;
          (vs, g'') = calls n g'
      in (v # vs, g''))"

subsection \<open>The environment of one probe\<close>

text \<open>
  Everything \<^verbatim>\<open>ProbeICMP\<close> calls outside \<^verbatim>\<open>icmp.go\<close> is a field of the environment:
  the context's \<^verbatim>\<open>Deadline()\<close>; the two readings of \<^verbatim>\<open>time.Now()\<close> on line 53, in the
  order Go takes them (\<open>Now_1\<close> is the receiver of \<^verbatim>\<open>Add\<close>, \<open>Now_2\<close> the argument of
  \<^verbatim>\<open>Sub\<close>); the result of \<^verbatim>\<open>chooseProtocol\<close>; \<^verbatim>\<open>icmp.ListenPacket\<close>; \<^verbatim>\<open>os.Getpid\<close>;
  \<^verbatim>\<open>Message.Marshal(nil)\<close>; and the socket's \<^verbatim>\<open>WriteTo\<close>, \<^verbatim>\<open>SetReadDeadline\<close> and
  \<^verbatim>\<open>ReadFrom\<close>. \<open>ReadFrom\<close> is the script of what the successive calls deliver.
\<close>

record env =
  ctx_Deadline :: "Time \<times> bool"
  Now_1 :: Time
  Now_2 :: Time
  chooseProtocol :: "error + IPAddr"
  ListenPacket :: "string \<Rightarrow> string \<Rightarrow> error option"
  Getpid :: int
  Marshal :: "icmp_Message \<Rightarrow> error + bytes"
  WriteTo :: "bytes \<Rightarrow> IPAddr \<Rightarrow> error option"
  SetReadDeadline :: "Time \<Rightarrow> error option"
  ReadFrom :: "read_result list"

subsection \<open>The probe\<close>

definition payload :: bytes where
  "payload = map (\<lambda>c. of_nat (of_char c)) ''Prometheus Blackbox Exporter''"

text \<open>
  The receive loop (lines 115 to 137). \<open>rb\<close> is the 1500-byte buffer, which lives across
  iterations; a read copies \<open>n\<close> bytes of the datagram into its front. The loop has no
  exit of its own besides a timeout and a match: when the script of reads ends before
  either, the probe has not returned, and the result is \<open>None\<close>.
\<close>

fun recv_loop ::
  "IPAddr \<Rightarrow> icmp_Type \<Rightarrow> bytes \<Rightarrow> bytes \<Rightarrow> event list \<Rightarrow> read_result list
     \<Rightarrow> bool option \<times> event list" where
  "recv_loop ip replyType wb rb tr [] = (None, tr)"
| "recv_loop ip replyType wb rb tr (ReadErr err # rs) =
     (if timeout_error err
      then (Some False,
            tr @ [ReadFrom_call (ReadErr err), Log Warn ''Timeout reading from socket''])
      else recv_loop ip replyType wb rb
             (tr @ [ReadFrom_call (ReadErr err), Log Error ''Error reading from socket'']) rs)"
| "recv_loop ip replyType wb rb tr (ReadOK data peer # rs) =
     (let n = min (length data) (length rb);
          rb = take n data @ drop n rb;
          tr = tr @ [ReadFrom_call (ReadOK data peer)]
      in if String peer \<noteq> String ip then recv_loop ip replyType wb rb tr rs
         else
           let rb = (if replyType = ipv6_ICMPTypeEchoReply then rb[2 := 0, 3 := 0] else rb)
           in if take n rb = wb
              then (Some True, tr @ [Log Info ''Found matching reply packet''])
              else recv_loop ip replyType wb rb tr rs)"

text \<open>Lines 78 to 137: what runs between \<^verbatim>\<open>defer socket.Close()\<close> and the return.\<close>

definition ProbeICMP_session ::
  "env \<Rightarrow> globals \<Rightarrow> Time \<Rightarrow> IPAddr \<Rightarrow> icmp_Type \<Rightarrow> icmp_Type \<Rightarrow> event list
     \<Rightarrow> bool option \<times> globals \<times> event list" where
  "ProbeICMP_session env g deadline ip requestType replyType tr =
     (let (seq, g) = getICMPSequence g;
          body = \<lparr>ID = Getpid env AND 0xffff, Seq = uint seq, Data = payload\<rparr>;
          tr = tr @ [Log Info ''Creating ICMP packet''];
          wm = \<lparr>Type = requestType, Code = 0, Body = body\<rparr>
      in case Marshal env wm of
           Inl err \<Rightarrow> (Some False, g, tr @ [Log Error ''Error marshalling packet''])
         | Inr wb \<Rightarrow>
            (let tr = tr @ [Log Info ''Writing out packet'', WriteTo_call wb ip]
             in case WriteTo env wb ip of
                  Some err \<Rightarrow> (Some False, g, tr @ [Log Warn ''Error writing to socket''])
                | None \<Rightarrow>
                   (let wm = wm\<lparr>Type := replyType\<rparr>
                    in case Marshal env wm of
                         Inl err \<Rightarrow>
                           (Some False, g, tr @ [Log Error ''Error marshalling packet''])
                       | Inr wb \<Rightarrow>
                          (let rb = replicate 1500 (0 :: byte);
                               tr = tr @ [SetReadDeadline_call deadline]
                           in case SetReadDeadline env deadline of
                                Some err \<Rightarrow>
                                  (Some False, g,
                                   tr @ [Log Error ''Error setting socket deadline''])
                              | None \<Rightarrow>
                                 (let (r, tr) =
                                        recv_loop ip replyType wb rb
                                          (tr @ [Log Info ''Waiting for reply packets''])
                                          (ReadFrom env)
                                  in (r, g, tr))))))"

text \<open>\<^verbatim>\<open>defer socket.Close()\<close>: the socket is closed when the function returns.\<close>

definition deferred_Close ::
  "bool option \<times> globals \<times> event list \<Rightarrow> bool option \<times> globals \<times> event list" where
  "deferred_Close out =
     (case out of
        (None, g, tr) \<Rightarrow> (None, g, tr)
      | (Some success, g, tr) \<Rightarrow> (Some success, g, tr @ [Close_call]))"

text \<open>The deadline computed on lines 52 and 53; the \<^verbatim>\<open>ok\<close> of \<^verbatim>\<open>ctx.Deadline()\<close> is dropped.\<close>

definition probe_deadline :: "env \<Rightarrow> Time" where
  "probe_deadline env =
     (let (timeoutDeadline, _) = ctx_Deadline env
      in Time_Add (Now_1 env) (Time_Sub timeoutDeadline (Now_2 env)))"

definition ProbeICMP :: "env \<Rightarrow> globals \<Rightarrow> bool option \<times> globals \<times> event list" where
  "ProbeICMP env g =
     (let deadline = probe_deadline env
      in case chooseProtocol env of
           Inl err \<Rightarrow> (Some False, g, [Log Warn ''Error resolving address''])
         | Inr ip \<Rightarrow>
            (let tr = [Log Info ''Creating socket''];
                 (requestType, replyType, network, address) =
                   (if To4_nil ip
                    then (ipv6_ICMPTypeEchoRequest, ipv6_ICMPTypeEchoReply,
                          ''ip6:ipv6-icmp'', ''::'')
                    else (ipv4_ICMPTypeEcho, ipv4_ICMPTypeEchoReply,
                          ''ip4:icmp'', ''0.0.0.0''));
                 err = ListenPacket env network address;
                 tr = tr @ [ListenPacket_call network address err]
             in (case err of
                   Some e \<Rightarrow> (Some False, g, tr @ [Log Error ''Error listening to socket''])
                 | None \<Rightarrow>
                     deferred_Close
                       (ProbeICMP_session env g deadline ip requestType replyType tr))))"

subsection \<open>The socket under a read deadline\<close>

text \<open>
  The error of a receive that ran into the read deadline: a \<^verbatim>\<open>net.Error\<close> whose
  \<^verbatim>\<open>Timeout()\<close> is true.
\<close>

definition io_timeout :: error where
  "io_timeout = NetError True ''i/o timeout''"

text \<open>Modelled from the spec: the socket's receive under the read deadline (sections 4.3,
  4.5 and 5 of the specification; the socket is outside the repository). An arrival is
  what a receive would deliver, with the reading of the clock at which it would complete.
  A receive that would complete when the deadline is reached (the deadline less that
  reading, as \<^verbatim>\<open>Sub\<close> computes it, is zero or negative) is a timeout instead, and so is
  a receive for which nothing arrives any more; the zero time stands for "no deadline",
  under which a receive never times out.\<close>

fun deliver :: "Time \<Rightarrow> (Time \<times> read_result) list \<Rightarrow> read_result list" where
  "deliver deadline [] = (if IsZero deadline then [] else [ReadErr io_timeout])"
| "deliver deadline ((at, r) # rest) =
     (if \<not> IsZero deadline \<and> Time_Sub deadline at \<le> 0 then [ReadErr io_timeout]
      else r # deliver deadline rest)"

subsection \<open>Concurrent callers of the sequence counter\<close>

text \<open>
  \<^verbatim>\<open>getICMPSequence\<close> runs under \<^verbatim>\<open>icmpSequenceMutex\<close>. A caller goes through five steps:
  it takes the mutex (and waits while another caller holds it), loads the counter, stores
  the incremented value, reads the counter as the value to return, and releases the
  mutex on the way out (the deferred \<^verbatim>\<open>Unlock\<close>). The increment is split into its load
  and its store, so that only the mutex keeps two callers from overwriting each other.
  A system is the counter, the mutex, the program point of every thread and the values
  returned so far, in the order they were read; a schedule names the thread that moves
  next, and a thread outside a call starts a new one.
\<close>

datatype pc =
    Outside
  | Holding
  | Loaded "16 word"
  | Stored
  | Returning "16 word"

record sys =
  shared :: globals
  locked :: bool
  threads :: "pc list"
  returned :: "(nat \<times> 16 word) list"

definition thread_step :: "nat \<Rightarrow> sys \<Rightarrow> sys" where
  "thread_step i s =
     (if length (threads s) \<le> i then s
      else case threads s ! i of
             Outside \<Rightarrow>
               if locked s then s
               else s\<lparr>locked := True, threads := (threads s)[i := Holding]\<rparr>
           | Holding \<Rightarrow>
               s\<lparr>threads := (threads s)[i := Loaded (icmpSequence (shared s))]\<rparr>
           | Loaded v \<Rightarrow>
               s\<lparr>shared := (shared s)\<lparr>icmpSequence := v + 1\<rparr>,
                 threads := (threads s)[i := Stored]\<rparr>
           | Stored \<Rightarrow>
               s\<lparr>threads := (threads s)[i := Returning (icmpSequence (shared s))],
                 returned := returned s @ [(i, icmpSequence (shared s))]\<rparr>
           | Returning v \<Rightarrow>
               s\<lparr>locked := False, threads := (threads s)[i := Outside]\<rparr>)"

fun run_schedule :: "nat list \<Rightarrow> sys \<Rightarrow> sys" where
  "run_schedule [] s = s"
| "run_schedule (i # sched) s = run_schedule sched (thread_step i s)"

definition init_sys :: "globals \<Rightarrow> nat \<Rightarrow> sys" where
  "init_sys g n = \<lparr>shared = g, locked = False, threads = replicate n Outside, returned = []\<rparr>"

text \<open>
  The invariant of the mutex: at most one thread is inside a call, exactly when the mutex
  is held, and the counter and that thread's local value are where the number of values
  returned so far says they are.
\<close>

definition in_call :: "pc list \<Rightarrow> pc list" where
  "in_call ts = filter (\<lambda>p. p \<noteq> Outside) ts"

definition holder_ok :: "16 word \<Rightarrow> 16 word \<Rightarrow> pc \<Rightarrow> bool" where
  "holder_ok expected seq p =
     (case p of
        Outside \<Rightarrow> False
      | Holding \<Rightarrow> seq = expected
      | Loaded v \<Rightarrow> v = expected \<and> seq = expected
      | Stored \<Rightarrow> seq = expected + 1
      | Returning v \<Rightarrow> v = expected \<and> seq = expected)"

definition counter_inv :: "16 word \<Rightarrow> sys \<Rightarrow> bool" where
  "counter_inv c0 s \<longleftrightarrow>
     map snd (returned s) =
       map (\<lambda>j. c0 + of_nat j) [Suc 0..<Suc (length (returned s))] \<and>
     (case in_call (threads s) of
        [] \<Rightarrow> \<not> locked s \<and> icmpSequence (shared s) = c0 + of_nat (length (returned s))
      | [p] \<Rightarrow> locked s \<and>
               holder_ok (c0 + of_nat (length (returned s))) (icmpSequence (shared s)) p
      | _ \<Rightarrow> False)"

subsection \<open>The loop, read by read\<close>

text \<open>
  What one read decides: \<open>Some False\<close> for a timeout, \<open>Some True\<close> for a match,
  \<open>None\<close> when the loop goes on. \<open>first_verdict\<close> is the first decision along a script
  of reads and \<open>loop_trace\<close> the events the loop leaves; \<open>recv_loop_eq\<close> below proves
  that the loop computes them.
\<close>

fun verdict :: "IPAddr \<Rightarrow> icmp_Type \<Rightarrow> bytes \<Rightarrow> read_result \<Rightarrow> bool option" where
  "verdict ip replyType wb (ReadErr err) =
     (if timeout_error err then Some False else None)"
| "verdict ip replyType wb (ReadOK data peer) =
     (if String peer \<noteq> String ip then None
      else if (if replyType = ipv6_ICMPTypeEchoReply
               then (take 1500 data)[2 := 0, 3 := 0] else take 1500 data) = wb
           then Some True else None)"

fun first_verdict :: "IPAddr \<Rightarrow> icmp_Type \<Rightarrow> bytes \<Rightarrow> read_result list \<Rightarrow> bool option" where
  "first_verdict ip replyType wb [] = None"
| "first_verdict ip replyType wb (r # rs) =
     (case verdict ip replyType wb r of
        Some b \<Rightarrow> Some b
      | None \<Rightarrow> first_verdict ip replyType wb rs)"

fun loop_trace :: "IPAddr \<Rightarrow> icmp_Type \<Rightarrow> bytes \<Rightarrow> read_result list \<Rightarrow> event list" where
  "loop_trace ip replyType wb [] = []"
| "loop_trace ip replyType wb (r # rs) =
     ReadFrom_call r #
     (case verdict ip replyType wb r of
        Some True \<Rightarrow> [Log Info ''Found matching reply packet'']
      | Some False \<Rightarrow> [Log Warn ''Timeout reading from socket'']
      | None \<Rightarrow>
          (case r of
             ReadErr _ \<Rightarrow> Log Error ''Error reading from socket'' # loop_trace ip replyType wb rs
           | ReadOK _ _ \<Rightarrow> loop_trace ip replyType wb rs))"

text \<open>The log line of the read that ends the loop.\<close>

definition decision_log :: "bool \<Rightarrow> event" where
  "decision_log b =
     (if b then Log Info ''Found matching reply packet''
      else Log Warn ''Timeout reading from socket'')"

subsection \<open>Names for the stages of a probe\<close>

text \<open>
  The arguments the probe passes at each stage, as functions of the resolved address:
  the message types and the listen arguments of lines 62 to 70, and the messages
  marshalled on lines 90 and 103.
\<close>

definition requestType_of :: "IPAddr \<Rightarrow> icmp_Type" where
  "requestType_of ip = (if To4_nil ip then ipv6_ICMPTypeEchoRequest else ipv4_ICMPTypeEcho)"

definition replyType_of :: "IPAddr \<Rightarrow> icmp_Type" where
  "replyType_of ip = (if To4_nil ip then ipv6_ICMPTypeEchoReply else ipv4_ICMPTypeEchoReply)"

definition network_of :: "IPAddr \<Rightarrow> string" where
  "network_of ip = (if To4_nil ip then ''ip6:ipv6-icmp'' else ''ip4:icmp'')"

definition address_of :: "IPAddr \<Rightarrow> string" where
  "address_of ip = (if To4_nil ip then ''::'' else ''0.0.0.0'')"

definition echo_message :: "env \<Rightarrow> globals \<Rightarrow> icmp_Type \<Rightarrow> icmp_Message" where
  "echo_message env g ty =
     \<lparr>Type = ty, Code = 0,
      Body = \<lparr>ID = Getpid env AND 0xffff, Seq = uint (fst (getICMPSequence g)), Data = payload\<rparr>\<rparr>"

definition request_message :: "env \<Rightarrow> globals \<Rightarrow> IPAddr \<Rightarrow> icmp_Message" where
  "request_message env g ip = echo_message env g (requestType_of ip)"

definition reply_message :: "env \<Rightarrow> globals \<Rightarrow> IPAddr \<Rightarrow> icmp_Message" where
  "reply_message env g ip = echo_message env g (replyType_of ip)"

text \<open>The events of a probe up to each stage.\<close>

definition opened_trace :: "IPAddr \<Rightarrow> event list" where
  "opened_trace ip =
     [Log Info ''Creating socket'',
      ListenPacket_call (network_of ip) (address_of ip) None,
      Log Info ''Creating ICMP packet'']"

definition sent_trace :: "IPAddr \<Rightarrow> bytes \<Rightarrow> event list" where
  "sent_trace ip wb0 =
     opened_trace ip @ [Log Info ''Writing out packet'', WriteTo_call wb0 ip]"

definition listening_trace :: "env \<Rightarrow> IPAddr \<Rightarrow> bytes \<Rightarrow> event list" where
  "listening_trace env ip wb0 =
     sent_trace ip wb0 @
     [SetReadDeadline_call (probe_deadline env), Log Info ''Waiting for reply packets'']"

text \<open>Resolution, socket open, both marshals and the send succeed.\<close>

definition sent_ok :: "env \<Rightarrow> globals \<Rightarrow> IPAddr \<Rightarrow> bytes \<Rightarrow> bytes \<Rightarrow> bool" where
  "sent_ok env g ip wb0 wb \<longleftrightarrow>
     chooseProtocol env = Inr ip \<and>
     ListenPacket env (network_of ip) (address_of ip) = None \<and>
     Marshal env (request_message env g ip) = Inr wb0 \<and>
     WriteTo env wb0 ip = None \<and>
     Marshal env (reply_message env g ip) = Inr wb"

subsection \<open>Observations of an outcome\<close>

text \<open>The result of a probe (\<open>None\<close> while it has not returned) and its trace.\<close>

definition success_of :: "bool option \<times> globals \<times> event list \<Rightarrow> bool option" where
  "success_of out = fst out"

definition trace_of :: "bool option \<times> globals \<times> event list \<Rightarrow> event list" where
  "trace_of out = snd (snd out)"

text \<open>
  The reads issued, the packets written, the deadlines set, the calls of
  \<^verbatim>\<open>ListenPacket\<close> and the number of sockets left open, along a trace.
\<close>

fun reads_issued :: "event list \<Rightarrow> read_result list" where
  "reads_issued [] = []"
| "reads_issued (ReadFrom_call r # tr) = r # reads_issued tr"
| "reads_issued (_ # tr) = reads_issued tr"

fun packets_written :: "event list \<Rightarrow> bytes list" where
  "packets_written [] = []"
| "packets_written (WriteTo_call b _ # tr) = b # packets_written tr"
| "packets_written (_ # tr) = packets_written tr"

fun deadlines_set :: "event list \<Rightarrow> Time list" where
  "deadlines_set [] = []"
| "deadlines_set (SetReadDeadline_call d # tr) = d # deadlines_set tr"
| "deadlines_set (_ # tr) = deadlines_set tr"

fun listen_calls :: "event list \<Rightarrow> nat" where
  "listen_calls [] = 0"
| "listen_calls (ListenPacket_call _ _ _ # tr) = Suc (listen_calls tr)"
| "listen_calls (_ # tr) = listen_calls tr"

fun open_sockets :: "event list \<Rightarrow> int" where
  "open_sockets [] = 0"
| "open_sockets (ListenPacket_call _ _ None # tr) = open_sockets tr + 1"
| "open_sockets (Close_call # tr) = open_sockets tr - 1"
| "open_sockets (_ # tr) = open_sockets tr"

text \<open>
  The number \<open>n\<close> of bytes a read copies into the 1500-byte buffer, and the two kinds
  of receive error.
\<close>

fun bytes_read :: "read_result \<Rightarrow> nat option" where
  "bytes_read (ReadErr _) = None"
| "bytes_read (ReadOK data _) = Some (min (length data) 1500)"

fun timeout_read :: "read_result \<Rightarrow> bool" where
  "timeout_read (ReadErr err) = timeout_error err"
| "timeout_read (ReadOK _ _) = False"

fun other_read_error :: "read_result \<Rightarrow> bool" where
  "other_read_error (ReadErr err) = (\<not> timeout_error err)"
| "other_read_error (ReadOK _ _) = False"

subsection \<open>A sample environment\<close>

text \<open>
  A concrete environment for running the probe on explicit inputs. Its marshaller writes
  the wire format of an echo message: type, code, two checksum bytes, identifier and
  sequence number in network byte order, payload. The checksum is the Internet checksum
  for an IPv4 type; for an IPv6 type the two bytes stay zero, since the checksum needs
  the pseudo-header and \<^verbatim>\<open>Marshal(nil)\<close> has none.
\<close>

fun type_byte :: "icmp_Type \<Rightarrow> byte" where
  "type_byte (ipv4_ICMPType t) = of_int t"
| "type_byte (ipv6_ICMPType t) = of_int t"

definition be16 :: "int \<Rightarrow> bytes" where
  "be16 x = [of_int (x div 256 mod 256), of_int (x mod 256)]"

fun sum16 :: "bytes \<Rightarrow> nat" where
  "sum16 (lo # hi # rest) = unat lo + 256 * unat hi + sum16 rest"
| "sum16 [b] = unat b"
| "sum16 [] = 0"

definition checksum :: "bytes \<Rightarrow> nat" where
  "checksum b =
     (let s = sum16 b;
          s = s div 65536 + s mod 65536;
          s = s + s div 65536
      in 65535 - s mod 65536)"

definition sample_Marshal :: "icmp_Message \<Rightarrow> error + bytes" where
  "sample_Marshal m =
     (let b = [type_byte (Type m), of_int (Code m), 0, 0] @
              be16 (ID (Body m)) @ be16 (Seq (Body m)) @ Data (Body m)
      in case Type m of
           ipv6_ICMPType _ \<Rightarrow> Inr b
         | ipv4_ICMPType _ \<Rightarrow>
             (let s = checksum b
              in Inr (b[2 := of_nat (s mod 256), 3 := of_nat (s div 256)])))"

text \<open>
  Addresses, an environment in which every call succeeds (its deadline is a wall-only
  time, five seconds after the first reading of the clock), and the counter just before
  it wraps.
\<close>

definition target4 :: IPAddr where
  "target4 = \<lparr>To4_nil = False, String = ''192.0.2.1''\<rparr>"

definition target6 :: IPAddr where
  "target6 = \<lparr>To4_nil = True, String = ''2001:db8::1''\<rparr>"

definition other6 :: IPAddr where
  "other6 = \<lparr>To4_nil = True, String = ''2001:db8::2''\<rparr>"

definition sample_env :: "IPAddr \<Rightarrow> read_result list \<Rightarrow> env" where
  "sample_env ip rs =
     \<lparr>ctx_Deadline = (\<lparr>wall = 64000000005000000000, monotonic = None\<rparr>, True),
      Now_1 = \<lparr>wall = 64000000000000000000, monotonic = Some 7000000000\<rparr>,
      Now_2 = \<lparr>wall = 64000000000000000150, monotonic = Some 7000000150\<rparr>,
      chooseProtocol = Inr ip,
      ListenPacket = (\<lambda>_ _. None),
      Getpid = 70000,
      Marshal = sample_Marshal,
      WriteTo = (\<lambda>_ _. None),
      SetReadDeadline = (\<lambda>_. None),
      ReadFrom = rs\<rparr>"

definition g0 :: globals where
  "g0 = \<lparr>icmpSequence = 65535\<rparr>"

text \<open>
  The packets the sample marshaller produces for these, and packets to receive: the
  echo of the target (for IPv6 with a checksum filled in), a packet of another host, a
  truncated one.
\<close>

definition request4 :: bytes where
  "request4 = [8, 0, 138, 245, 17, 112, 0, 0] @ payload"

definition reply4 :: bytes where
  "reply4 = [0, 0, 146, 245, 17, 112, 0, 0] @ payload"

definition request6 :: bytes where
  "request6 = [128, 0, 0, 0, 17, 112, 0, 0] @ payload"

definition reply6 :: bytes where
  "reply6 = [129, 0, 0, 0, 17, 112, 0, 0] @ payload"

definition echo4 :: read_result where
  "echo4 = ReadOK reply4 target4"

definition echo6 :: read_result where
  "echo6 = ReadOK ([129, 0, 77, 200, 17, 112, 0, 0] @ payload) target6"

definition stray6 :: read_result where
  "stray6 = ReadOK ([129, 0, 1, 2, 17, 112, 0, 0] @ payload) other6"

definition header4 :: bytes where
  "header4 = [0, 0, 146, 245, 17, 112, 0, 0]"

text \<open>
  Errors, a marshaller that fails on the expected reply only, an environment whose
  deadline carries a monotonic reading (as one made from a timeout does), an environment
  without a deadline, and a schedule of two concurrent callers.
\<close>

definition denied :: error where
  "denied = PlainError ''operation not permitted''"

definition refused :: error where
  "refused = NetError False ''connection refused''"

definition no_reply_Marshal :: "icmp_Message \<Rightarrow> error + bytes" where
  "no_reply_Marshal m =
     (if Type m = ipv4_ICMPTypeEchoReply then Inl denied else sample_Marshal m)"

definition timeout_env :: env where
  "timeout_env =
     (sample_env target4 [])
       \<lparr>ctx_Deadline :=
          (\<lparr>wall = 64000000005000000000, monotonic = Some 12000000010\<rparr>, True)\<rparr>"

definition no_deadline_env :: env where
  "no_deadline_env =
     (sample_env target4 [])
       \<lparr>ctx_Deadline := (zero_Time, False),
        ReadFrom :=
          deliver \<lparr>wall = 54776627963145224192, monotonic = None\<rparr>
            [(\<lparr>wall = 64000000000020000000, monotonic = Some 7020000000\<rparr>, echo4)]\<rparr>"

definition two_callers :: "nat list" where
  "two_callers = [0, 1, 0, 0, 1, 0, 0, 1, 1, 1, 1, 1]"

section \<open>Properties\<close>

subsection \<open>The loop computes the first verdict and its trace\<close>

lemma take_min: "take (min (length xs) k) xs = take k xs"
  by (cases "length xs \<le> k") (simp_all add: min_def)

lemma take_buf:
  assumes "n = min (length data) (length rb)"
  shows "take n (take n data @ drop n rb) = take (length rb) data"
proof -
  have "length (take n data) = n" using assms by simp
  then have "take n (take n data @ drop n rb) = take n data" by simp
  also have "\<dots> = take (length rb) data" unfolding assms by (rule take_min)
  finally show ?thesis .
qed

lemma take_buf0:
  assumes "n = min (length data) (length rb)"
  shows "take n ((take n data @ drop n rb)[2 := z, 3 := z]) = (take (length rb) data)[2 := z, 3 := z]"
  using take_buf [OF assms] by (simp only: take_update_swap)

lemma recv_loop_eq:
  "length rb = 1500 \<Longrightarrow>
   recv_loop ip replyType wb rb tr rs =
     (first_verdict ip replyType wb rs, tr @ loop_trace ip replyType wb rs)"
proof (induction rs arbitrary: rb tr)
  case Nil
  then show ?case by simp
next
  case (Cons r rs)
  show ?case
  proof (cases r)
    case (ReadErr err)
    then show ?thesis using Cons by simp
  next
    case (ReadOK data peer)
    define n where "n = min (length data) (length rb)"
    define rb1 where "rb1 = take n data @ drop n rb"
    define rb2 where "rb2 = rb1[2 := 0, 3 := 0]"
    have step:
      "recv_loop ip replyType wb rb tr (ReadOK data peer # rs) =
         (if String peer \<noteq> String ip
          then recv_loop ip replyType wb rb1 (tr @ [ReadFrom_call (ReadOK data peer)]) rs
          else if take n (if replyType = ipv6_ICMPTypeEchoReply then rb2 else rb1) = wb
               then (Some True, tr @ [ReadFrom_call (ReadOK data peer),
                                      Log Info ''Found matching reply packet''])
               else recv_loop ip replyType wb
                      (if replyType = ipv6_ICMPTypeEchoReply then rb2 else rb1)
                      (tr @ [ReadFrom_call (ReadOK data peer)]) rs)"
      unfolding n_def rb1_def rb2_def by (simp only: recv_loop.simps Let_def append_assoc append.simps)
    have len1: "length rb1 = 1500" using Cons.prems by (simp add: rb1_def n_def)
    have len2: "length rb2 = 1500" using len1 by (simp add: rb2_def)
    have t1: "take n rb1 = take 1500 data"
      using take_buf [of n data rb] Cons.prems by (simp add: rb1_def n_def)
    have t2: "take n rb2 = (take 1500 data)[2 := 0, 3 := 0]"
      using take_buf0 [of n data rb 0] Cons.prems by (simp add: rb2_def rb1_def n_def)
    show ?thesis
      unfolding ReadOK step
      using Cons.IH [OF len1] Cons.IH [OF len2] t1 t2
      by (cases "replyType = ipv6_ICMPTypeEchoReply") auto
  qed
qed

subsection \<open>The stages of a probe\<close>

lemmas probe_defs =
  ProbeICMP_def ProbeICMP_session_def deferred_Close_def Let_def
  requestType_of_def replyType_of_def network_of_def address_of_def
  echo_message_def request_message_def reply_message_def
  opened_trace_def sent_trace_def listening_trace_def getICMPSequence_def

lemma ProbeICMP_resolve_err:
  "chooseProtocol env = Inl e \<Longrightarrow>
   ProbeICMP env g = (Some False, g, [Log Warn ''Error resolving address''])"
  by (simp add: ProbeICMP_def)

lemma ProbeICMP_listen_err:
  "chooseProtocol env = Inr ip \<Longrightarrow>
   ListenPacket env (network_of ip) (address_of ip) = Some e \<Longrightarrow>
   ProbeICMP env g =
     (Some False, g,
      [Log Info ''Creating socket'',
       ListenPacket_call (network_of ip) (address_of ip) (Some e),
       Log Error ''Error listening to socket''])"
  by (cases "To4_nil ip") (simp_all add: probe_defs)

lemma ProbeICMP_marshal_request_err:
  "chooseProtocol env = Inr ip \<Longrightarrow>
   ListenPacket env (network_of ip) (address_of ip) = None \<Longrightarrow>
   Marshal env (request_message env g ip) = Inl e \<Longrightarrow>
   ProbeICMP env g =
     (Some False, snd (getICMPSequence g),
      opened_trace ip @ [Log Error ''Error marshalling packet'', Close_call])"
  by (cases "To4_nil ip") (simp_all add: probe_defs)

lemma ProbeICMP_write_err:
  "chooseProtocol env = Inr ip \<Longrightarrow>
   ListenPacket env (network_of ip) (address_of ip) = None \<Longrightarrow>
   Marshal env (request_message env g ip) = Inr wb0 \<Longrightarrow>
   WriteTo env wb0 ip = Some e \<Longrightarrow>
   ProbeICMP env g =
     (Some False, snd (getICMPSequence g),
      sent_trace ip wb0 @ [Log Warn ''Error writing to socket'', Close_call])"
  by (cases "To4_nil ip") (simp_all add: probe_defs)

lemma ProbeICMP_marshal_reply_err:
  "chooseProtocol env = Inr ip \<Longrightarrow>
   ListenPacket env (network_of ip) (address_of ip) = None \<Longrightarrow>
   Marshal env (request_message env g ip) = Inr wb0 \<Longrightarrow>
   WriteTo env wb0 ip = None \<Longrightarrow>
   Marshal env (reply_message env g ip) = Inl e \<Longrightarrow>
   ProbeICMP env g =
     (Some False, snd (getICMPSequence g),
      sent_trace ip wb0 @ [Log Error ''Error marshalling packet'', Close_call])"
  by (cases "To4_nil ip") (simp_all add: probe_defs)

lemma ProbeICMP_deadline_err:
  "chooseProtocol env = Inr ip \<Longrightarrow>
   ListenPacket env (network_of ip) (address_of ip) = None \<Longrightarrow>
   Marshal env (request_message env g ip) = Inr wb0 \<Longrightarrow>
   WriteTo env wb0 ip = None \<Longrightarrow>
   Marshal env (reply_message env g ip) = Inr wb \<Longrightarrow>
   SetReadDeadline env (probe_deadline env) = Some e \<Longrightarrow>
   ProbeICMP env g =
     (Some False, snd (getICMPSequence g),
      sent_trace ip wb0 @
      [SetReadDeadline_call (probe_deadline env),
       Log Error ''Error setting socket deadline'', Close_call])"
  by (cases "To4_nil ip") (simp_all add: probe_defs)

lemma ProbeICMP_listening:
  "chooseProtocol env = Inr ip \<Longrightarrow>
   ListenPacket env (network_of ip) (address_of ip) = None \<Longrightarrow>
   Marshal env (request_message env g ip) = Inr wb0 \<Longrightarrow>
   WriteTo env wb0 ip = None \<Longrightarrow>
   Marshal env (reply_message env g ip) = Inr wb \<Longrightarrow>
   SetReadDeadline env (probe_deadline env) = None \<Longrightarrow>
   ProbeICMP env g =
     (first_verdict ip (replyType_of ip) wb (ReadFrom env), snd (getICMPSequence g),
      listening_trace env ip wb0 @ loop_trace ip (replyType_of ip) wb (ReadFrom env) @
      (if first_verdict ip (replyType_of ip) wb (ReadFrom env) = None then [] else [Close_call]))"
  by (cases "To4_nil ip"; cases "first_verdict ip (replyType_of ip) wb (ReadFrom env)")
     (simp_all add: probe_defs recv_loop_eq)

lemma trace_of_simp [simp]: "trace_of (r, g, tr) = tr"
  by (simp add: trace_of_def)

lemma success_of_simp [simp]: "success_of (r, g, tr) = r"
  by (simp add: success_of_def)

lemma ProbeICMP_sent_ok:
  assumes "sent_ok env g ip wb0 wb" and "SetReadDeadline env (probe_deadline env) = None"
  shows "ProbeICMP env g =
     (first_verdict ip (replyType_of ip) wb (ReadFrom env), snd (getICMPSequence g),
      listening_trace env ip wb0 @ loop_trace ip (replyType_of ip) wb (ReadFrom env) @
      (if first_verdict ip (replyType_of ip) wb (ReadFrom env) = None then [] else [Close_call]))"
  using assms by (simp add: sent_ok_def ProbeICMP_listening)

subsection \<open>Observations along the traces\<close>

lemma open_sockets_append:
  "open_sockets (xs @ ys) = open_sockets xs + open_sockets ys"
  by (induction xs rule: open_sockets.induct) simp_all

lemma open_sockets_loop_trace [simp]:
  "open_sockets (loop_trace ip replyType wb rs) = 0"
  by (induction rs) (auto split: option.splits bool.splits read_result.splits)

lemma open_sockets_opened_trace [simp]: "open_sockets (opened_trace ip) = 1"
  by (simp add: opened_trace_def)

lemma open_sockets_sent_trace [simp]: "open_sockets (sent_trace ip wb0) = 1"
  by (simp add: sent_trace_def open_sockets_append)

lemma open_sockets_listening_trace [simp]: "open_sockets (listening_trace env ip wb0) = 1"
  by (simp add: listening_trace_def open_sockets_append)

subsection \<open>The sample environment\<close>

lemmas sample_defs =
  sample_env_def sample_Marshal_def target4_def target6_def g0_def be16_def
  request_message_def reply_message_def echo_message_def requestType_of_def replyType_of_def
  network_of_def address_of_def getICMPSequence_def
  ipv4_ICMPTypeEcho_def ipv4_ICMPTypeEchoReply_def ipv6_ICMPTypeEchoRequest_def ipv6_ICMPTypeEchoReply_def

lemma sample_request6:
  "sample_Marshal (request_message (sample_env target6 rs) g0 target6) = Inr request6"
  by (simp add: sample_defs request6_def)

lemma sample_reply6:
  "sample_Marshal (reply_message (sample_env target6 rs) g0 target6) = Inr reply6"
  by (simp add: sample_defs reply6_def)

lemma checksum_request4: "checksum ([8, 0, 0, 0, 17, 112, 0, 0] @ payload) = 62858"
  by (simp add: checksum_def payload_def)

lemma checksum_reply4: "checksum ([0, 0, 0, 0, 17, 112, 0, 0] @ payload) = 62866"
  by (simp add: checksum_def payload_def)

lemma sample_request4:
  "sample_Marshal (request_message (sample_env target4 rs) g0 target4) = Inr request4"
  using checksum_request4 by (simp add: sample_defs request4_def)

lemma sample_reply4:
  "sample_Marshal (reply_message (sample_env target4 rs) g0 target4) = Inr reply4"
  using checksum_reply4 by (simp add: sample_defs reply4_def)

lemma sample_sent_ok4: "sent_ok (sample_env target4 rs) g0 target4 request4 reply4"
  using sample_request4 [of rs] sample_reply4 [of rs]
  by (simp add: sent_ok_def) (simp add: sample_env_def)

lemma sample_sent_ok6: "sent_ok (sample_env target6 rs) g0 target6 request6 reply6"
  using sample_request6 [of rs] sample_reply6 [of rs]
  by (simp add: sent_ok_def) (simp add: sample_env_def)

lemma sample_run4:
  "ProbeICMP (sample_env target4 rs) g0 =
     (first_verdict target4 ipv4_ICMPTypeEchoReply reply4 rs, \<lparr>icmpSequence = 0\<rparr>,
      listening_trace (sample_env target4 rs) target4 request4 @
      loop_trace target4 ipv4_ICMPTypeEchoReply reply4 rs @
      (if first_verdict target4 ipv4_ICMPTypeEchoReply reply4 rs = None then [] else [Close_call]))"
proof -
  have "SetReadDeadline (sample_env target4 rs) (probe_deadline (sample_env target4 rs)) = None"
    by (simp add: sample_env_def)
  from ProbeICMP_sent_ok [OF sample_sent_ok4 this]
  show ?thesis
    by (simp add: sample_env_def replyType_of_def target4_def getICMPSequence_def g0_def)
qed

lemma sample_run6:
  "ProbeICMP (sample_env target6 rs) g0 =
     (first_verdict target6 ipv6_ICMPTypeEchoReply reply6 rs, \<lparr>icmpSequence = 0\<rparr>,
      listening_trace (sample_env target6 rs) target6 request6 @
      loop_trace target6 ipv6_ICMPTypeEchoReply reply6 rs @
      (if first_verdict target6 ipv6_ICMPTypeEchoReply reply6 rs = None then [] else [Close_call]))"
proof -
  have "SetReadDeadline (sample_env target6 rs) (probe_deadline (sample_env target6 rs)) = None"
    by (simp add: sample_env_def)
  from ProbeICMP_sent_ok [OF sample_sent_ok6 this]
  show ?thesis
    by (simp add: sample_env_def replyType_of_def target6_def getICMPSequence_def g0_def)
qed

lemma reads_issued_append:
  "reads_issued (xs @ ys) = reads_issued xs @ reads_issued ys"
  by (induction xs rule: reads_issued.induct) simp_all

lemma deadlines_set_append:
  "deadlines_set (xs @ ys) = deadlines_set xs @ deadlines_set ys"
  by (induction xs rule: deadlines_set.induct) simp_all

lemma reads_issued_listening_trace [simp]:
  "reads_issued (listening_trace env ip wb0) = []"
  by (simp add: listening_trace_def sent_trace_def opened_trace_def)

lemma deadlines_set_loop_trace [simp]:
  "deadlines_set (loop_trace ip replyType wb rs) = []"
  by (induction rs) (auto split: option.splits bool.splits read_result.splits)

lemma ProbeICMP_cases [case_names aborted deadline_err listening]:
  obtains
    "success_of (ProbeICMP env g) = Some False"
    "reads_issued (trace_of (ProbeICMP env g)) = []"
    "deadlines_set (trace_of (ProbeICMP env g)) = []"
    "count_list (trace_of (ProbeICMP env g)) (Log Error ''Error reading from socket'') = 0"
  | ip wb0 wb e where
    "sent_ok env g ip wb0 wb"
    "SetReadDeadline env (probe_deadline env) = Some e"
  | ip wb0 wb where
    "sent_ok env g ip wb0 wb"
    "SetReadDeadline env (probe_deadline env) = None"
proof (cases "chooseProtocol env")
  case (Inl e)
  then show ?thesis using that(1) by (simp add: ProbeICMP_resolve_err)
next
  case (Inr ip)
  note ip = this
  show ?thesis
  proof (cases "ListenPacket env (network_of ip) (address_of ip)")
    case (Some e)
    then show ?thesis using ip that(1) by (simp add: ProbeICMP_listen_err)
  next
    case None
    note listen = this
    show ?thesis
    proof (cases "Marshal env (request_message env g ip)")
      case (Inl e)
      then show ?thesis using ip listen that(1)
        by (simp add: ProbeICMP_marshal_request_err opened_trace_def)
    next
      case (Inr wb0)
      note req = this
      show ?thesis
      proof (cases "WriteTo env wb0 ip")
        case (Some e)
        then show ?thesis using ip listen req that(1)
          by (simp add: ProbeICMP_write_err opened_trace_def sent_trace_def)
      next
        case None
        note wr = this
        show ?thesis
        proof (cases "Marshal env (reply_message env g ip)")
          case (Inl e)
          then show ?thesis using ip listen req wr that(1)
            by (simp add: ProbeICMP_marshal_reply_err opened_trace_def sent_trace_def)
        next
          case (Inr wb)
          then have ok: "sent_ok env g ip wb0 wb"
            using ip listen req wr by (simp add: sent_ok_def)
          show ?thesis
          proof (cases "SetReadDeadline env (probe_deadline env)")
            case (Some e)
            then show ?thesis using ok that(2) by blast
          next
            case None
            then show ?thesis using ok that(3) by blast
          qed
        qed
      qed
    qed
  qed
qed

lemma ProbeICMP_sent_deadline_err:
  assumes "sent_ok env g ip wb0 wb" and "SetReadDeadline env (probe_deadline env) = Some e"
  shows "ProbeICMP env g =
     (Some False, snd (getICMPSequence g),
      sent_trace ip wb0 @
      [SetReadDeadline_call (probe_deadline env),
       Log Error ''Error setting socket deadline'', Close_call])"
  using assms by (simp add: sent_ok_def ProbeICMP_deadline_err)

subsection \<open>Verdicts along a script\<close>

lemma first_verdict_append:
  "first_verdict ip rt wb (pre @ rest) =
     (case first_verdict ip rt wb pre of
        Some b \<Rightarrow> Some b
      | None \<Rightarrow> first_verdict ip rt wb rest)"
  by (induction pre) (auto split: option.splits)

lemma first_verdict_skip:
  "verdict ip rt wb r = None \<Longrightarrow>
   first_verdict ip rt wb (pre @ r # post) = first_verdict ip rt wb (pre @ post)"
  by (simp add: first_verdict_append split: option.splits)

lemma first_verdict_same:
  "verdict ip rt wb r = verdict ip rt wb r' \<Longrightarrow>
   first_verdict ip rt wb (pre @ r # post) = first_verdict ip rt wb (pre @ r' # post)"
  by (simp add: first_verdict_append split: option.splits)

lemma issued_verdict:
  "r \<in> set (reads_issued (loop_trace ip rt wb rs)) \<Longrightarrow> verdict ip rt wb r = Some b \<Longrightarrow>
   first_verdict ip rt wb rs = Some b"
proof (induction rs)
  case Nil
  then show ?case by simp
next
  case (Cons a rs)
  show ?case
  proof (cases "verdict ip rt wb a")
    case None
    then have "r \<in> set (reads_issued (loop_trace ip rt wb rs))"
      using Cons.prems by (cases a) auto
    then show ?thesis using Cons None by simp
  next
    case (Some c)
    then have "reads_issued (loop_trace ip rt wb (a # rs)) = [a]"
      by (cases c) simp_all
    then have "r = a" using Cons.prems(1) by simp
    then show ?thesis using Some Cons.prems(2) by simp
  qed
qed

lemma issued_last:
  "first_verdict ip rt wb rs = Some b \<Longrightarrow>
   reads_issued (loop_trace ip rt wb rs) \<noteq> [] \<and>
   verdict ip rt wb (last (reads_issued (loop_trace ip rt wb rs))) = Some b"
proof (induction rs)
  case Nil
  then show ?case by simp
next
  case (Cons a rs)
  show ?case
  proof (cases "verdict ip rt wb a")
    case None
    then show ?thesis using Cons by (cases a) auto
  next
    case (Some c)
    then show ?thesis using Cons.prems by (cases c) simp_all
  qed
qed

lemma replyType_of_v6 [simp]:
  "replyType_of ip = ipv6_ICMPTypeEchoReply \<longleftrightarrow> To4_nil ip"
  by (simp add: replyType_of_def ipv6_ICMPTypeEchoReply_def ipv4_ICMPTypeEchoReply_def)

lemma sent_ok_ReadFrom_update [simp]:
  "sent_ok (env\<lparr>ReadFrom := rs\<rparr>) g ip wb0 wb = sent_ok env g ip wb0 wb"
  by (simp add: sent_ok_def request_message_def reply_message_def echo_message_def)

lemma probe_deadline_ReadFrom_update [simp]:
  "probe_deadline (env\<lparr>ReadFrom := rs\<rparr>) = probe_deadline env"
  by (simp add: probe_deadline_def)

lemma reads_issued_listening:
  assumes "sent_ok env g ip wb0 wb" and "SetReadDeadline env (probe_deadline env) = None"
  shows "reads_issued (trace_of (ProbeICMP env g)) =
           reads_issued (loop_trace ip (replyType_of ip) wb (ReadFrom env))"
  by (simp add: ProbeICMP_sent_ok [OF assms] reads_issued_append)

lemma success_listening:
  assumes "sent_ok env g ip wb0 wb" and "SetReadDeadline env (probe_deadline env) = None"
  shows "success_of (ProbeICMP env g) = first_verdict ip (replyType_of ip) wb (ReadFrom env)"
  by (simp add: ProbeICMP_sent_ok [OF assms])

lemma reads_issued_deadline_err:
  assumes "sent_ok env g ip wb0 wb" and "SetReadDeadline env (probe_deadline env) = Some e"
  shows "reads_issued (trace_of (ProbeICMP env g)) = []"
  by (simp add: ProbeICMP_sent_deadline_err [OF assms] sent_trace_def opened_trace_def)

text \<open>The outcome depends on the script only through the first verdict along it.\<close>

lemma success_script:
  assumes "\<And>ip wb. chooseProtocol env = Inr ip \<Longrightarrow>
      first_verdict ip (replyType_of ip) wb rs = first_verdict ip (replyType_of ip) wb rs'"
  shows "success_of (ProbeICMP (env\<lparr>ReadFrom := rs\<rparr>) g) =
         success_of (ProbeICMP (env\<lparr>ReadFrom := rs'\<rparr>) g)"
proof (cases "env\<lparr>ReadFrom := rs\<rparr>" g rule: ProbeICMP_cases)
  case aborted
  have "success_of (ProbeICMP (env\<lparr>ReadFrom := rs'\<rparr>) g) = Some False"
  proof (cases "env\<lparr>ReadFrom := rs'\<rparr>" g rule: ProbeICMP_cases)
    case aborted
    then show ?thesis by simp
  next
    case (deadline_err ip' wb0 wb e)
    then have "sent_ok (env\<lparr>ReadFrom := rs\<rparr>) g ip' wb0 wb"
      and "SetReadDeadline (env\<lparr>ReadFrom := rs\<rparr>)
             (probe_deadline (env\<lparr>ReadFrom := rs\<rparr>)) = Some e"
      by simp_all
    from ProbeICMP_sent_deadline_err [OF this] aborted(3)
    show ?thesis by (simp add: deadlines_set_append)
  next
    case (listening ip' wb0 wb)
    then have "sent_ok (env\<lparr>ReadFrom := rs\<rparr>) g ip' wb0 wb"
      and "SetReadDeadline (env\<lparr>ReadFrom := rs\<rparr>)
             (probe_deadline (env\<lparr>ReadFrom := rs\<rparr>)) = None"
      by simp_all
    from ProbeICMP_sent_ok [OF this] aborted(3)
    show ?thesis by (simp add: deadlines_set_append listening_trace_def)
  qed
  then show ?thesis using aborted(1) by simp
next
  case (deadline_err ip' wb0 wb e)
  then have "sent_ok (env\<lparr>ReadFrom := rs'\<rparr>) g ip' wb0 wb"
    and "SetReadDeadline (env\<lparr>ReadFrom := rs'\<rparr>)
           (probe_deadline (env\<lparr>ReadFrom := rs'\<rparr>)) = Some e"
    by simp_all
  from ProbeICMP_sent_deadline_err [OF this] ProbeICMP_sent_deadline_err [OF deadline_err]
  show ?thesis by simp
next
  case (listening ip' wb0 wb)
  then have ip': "chooseProtocol env = Inr ip'" by (simp add: sent_ok_def)
  from listening have "sent_ok (env\<lparr>ReadFrom := rs'\<rparr>) g ip' wb0 wb"
    and "SetReadDeadline (env\<lparr>ReadFrom := rs'\<rparr>)
           (probe_deadline (env\<lparr>ReadFrom := rs'\<rparr>)) = None"
    by simp_all
  from success_listening [OF this] success_listening [OF listening]
  show ?thesis using assms [OF ip'] by simp
qed

lemma received_listening:
  assumes "sent_ok env g ip wb0 wb"
    and "r \<in> set (reads_issued (trace_of (ProbeICMP env g)))"
  shows "SetReadDeadline env (probe_deadline env) = None"
proof (cases "SetReadDeadline env (probe_deadline env)")
  case None
  then show ?thesis .
next
  case (Some e)
  from reads_issued_deadline_err [OF assms(1) Some] assms(2) show ?thesis by simp
qed

lemma received_verdict:
  assumes "sent_ok env g ip wb0 wb"
    and "r \<in> set (reads_issued (trace_of (ProbeICMP env g)))"
    and "verdict ip (replyType_of ip) wb r = Some b"
  shows "success_of (ProbeICMP env g) = Some b"
proof -
  note dl = received_listening [OF assms(1,2)]
  from assms(2) have "r \<in> set (reads_issued (loop_trace ip (replyType_of ip) wb (ReadFrom env)))"
    by (simp add: reads_issued_listening [OF assms(1) dl])
  from issued_verdict [OF this assms(3)] show ?thesis
    by (simp add: success_listening [OF assms(1) dl])
qed

lemma payload_length: "length payload = 28"
  by (simp add: payload_def)

lemma verdict_echo6:
  "verdict target6 ipv6_ICMPTypeEchoReply reply6 echo6 = Some True"
  by (simp add: echo6_def reply6_def payload_length)

lemma verdict_echo4:
  "verdict target4 ipv4_ICMPTypeEchoReply reply4 echo4 = Some True"
  by (simp add: echo4_def reply4_def payload_length target4_def
      ipv4_ICMPTypeEchoReply_def ipv6_ICMPTypeEchoReply_def)

subsection \<open>The reads the loop issues\<close>

lemma issued_nonempty:
  "rs \<noteq> [] \<Longrightarrow> reads_issued (loop_trace ip rt wb rs) \<noteq> []"
  by (cases rs) simp_all

lemma issued_head:
  "reads_issued (loop_trace ip rt wb (a # rs)) =
     a # (case verdict ip rt wb a of
            None \<Rightarrow> reads_issued (loop_trace ip rt wb rs)
          | Some _ \<Rightarrow> [])"
  by (cases a) (auto split: option.splits bool.splits)

lemma issued_prefix:
  "reads_issued (loop_trace ip rt wb rs) =
     take (length (reads_issued (loop_trace ip rt wb rs))) rs"
proof (induction rs)
  case Nil
  then show ?case by simp
next
  case (Cons a rs)
  then show ?case by (cases "verdict ip rt wb a") (simp_all only: issued_head, simp_all)
qed

lemma issued_continues:
  "k < length (reads_issued (loop_trace ip rt wb rs)) \<Longrightarrow>
   verdict ip rt wb (rs ! k) = None \<Longrightarrow> Suc k < length rs \<Longrightarrow>
   Suc k < length (reads_issued (loop_trace ip rt wb rs))"
proof (induction rs arbitrary: k)
  case Nil
  then show ?case by simp
next
  case (Cons a rs)
  show ?case
  proof (cases k)
    case 0
    then have "verdict ip rt wb a = None" and "rs \<noteq> []" using Cons.prems by auto
    then show ?thesis using 0 issued_nonempty [of rs ip rt wb] by (simp add: issued_head del: loop_trace.simps)
  next
    case (Suc j)
    then have va: "verdict ip rt wb a = None"
      using Cons.prems(1) by (cases "verdict ip rt wb a") (simp_all add: issued_head del: loop_trace.simps)
    then have "j < length (reads_issued (loop_trace ip rt wb rs))"
      using Cons.prems(1) Suc by (simp add: issued_head del: loop_trace.simps)
    moreover have "verdict ip rt wb (rs ! j) = None" using Cons.prems(2) Suc by simp
    moreover have "Suc j < length rs" using Cons.prems(3) Suc by simp
    ultimately have "Suc j < length (reads_issued (loop_trace ip rt wb rs))"
      by (rule Cons.IH)
    then show ?thesis using va Suc by (simp add: issued_head del: loop_trace.simps)
  qed
qed

lemma loop_trace_decisive:
  "r \<in> set (reads_issued (loop_trace ip rt wb rs)) \<Longrightarrow> verdict ip rt wb r = Some b \<Longrightarrow>
   \<exists>pre. loop_trace ip rt wb rs = pre @ [ReadFrom_call r, decision_log b] \<and>
         reads_issued (loop_trace ip rt wb rs) = reads_issued pre @ [r]"
proof (induction rs)
  case Nil
  then show ?case by simp
next
  case (Cons a rs)
  show ?case
  proof (cases "verdict ip rt wb a")
    case None
    then have "r \<in> set (reads_issued (loop_trace ip rt wb rs))"
      using Cons.prems by (auto simp: issued_head simp del: loop_trace.simps)
    from Cons.IH [OF this Cons.prems(2)] obtain pre where
      pre: "loop_trace ip rt wb rs = pre @ [ReadFrom_call r, decision_log b]"
        "reads_issued (loop_trace ip rt wb rs) = reads_issued pre @ [r]"
      by blast
    show ?thesis
    proof (cases a)
      case (ReadErr e)
      then have "loop_trace ip rt wb (a # rs) =
          (ReadFrom_call a # Log Error ''Error reading from socket'' # pre) @
          [ReadFrom_call r, decision_log b]"
        using None pre(1) by simp
      moreover have "reads_issued (loop_trace ip rt wb (a # rs)) =
          reads_issued (ReadFrom_call a # Log Error ''Error reading from socket'' # pre) @ [r]"
        using None pre(2) by (simp add: issued_head del: loop_trace.simps)
      ultimately show ?thesis by blast
    next
      case (ReadOK d p)
      then have "loop_trace ip rt wb (a # rs) =
          (ReadFrom_call a # pre) @ [ReadFrom_call r, decision_log b]"
        using None pre(1) by simp
      moreover have "reads_issued (loop_trace ip rt wb (a # rs)) =
          reads_issued (ReadFrom_call a # pre) @ [r]"
        using None pre(2) by (simp add: issued_head del: loop_trace.simps)
      ultimately show ?thesis by blast
    qed
  next
    case (Some c)
    then have "r = a" using Cons.prems(1) by (simp add: issued_head del: loop_trace.simps)
    then have "c = b" using Some Cons.prems(2) by simp
    have "loop_trace ip rt wb (a # rs) = [] @ [ReadFrom_call r, decision_log b]"
      using Some \<open>r = a\<close> \<open>c = b\<close> by (cases b) (simp_all add: decision_log_def)
    moreover have "reads_issued (loop_trace ip rt wb (a # rs)) = reads_issued [] @ [r]"
      using Some \<open>r = a\<close> by (simp add: issued_head del: loop_trace.simps)
    ultimately show ?thesis by blast
  qed
qed

lemma read_error_logged:
  "count_list (loop_trace ip rt wb rs) (Log Error ''Error reading from socket'') =
   length (filter other_read_error (reads_issued (loop_trace ip rt wb rs)))"
proof (induction rs)
  case Nil
  then show ?case by simp
next
  case (Cons a rs)
  then show ?case by (cases a) (auto split: option.splits bool.splits if_splits)
qed

lemma count_list_listening_trace [simp]:
  "count_list (listening_trace env ip wb0) (Log Error ''Error reading from socket'') = 0"
  by (simp add: listening_trace_def sent_trace_def opened_trace_def)

lemma other_error_verdict:
  "\<not> timeout_error err \<Longrightarrow> verdict ip rt wb (ReadErr err) = None"
  by simp

lemma timeout_returns_false:
  assumes "ReadErr err \<in> set (reads_issued (trace_of (ProbeICMP env g)))"
    and "timeout_error err"
  shows "success_of (ProbeICMP env g) = Some False \<and>
         last (reads_issued (trace_of (ProbeICMP env g))) = ReadErr err \<and>
         drop (length (trace_of (ProbeICMP env g)) - 3) (trace_of (ProbeICMP env g)) =
           [ReadFrom_call (ReadErr err), Log Warn ''Timeout reading from socket'', Close_call]"
proof (cases env g rule: ProbeICMP_cases)
  case aborted
  then show ?thesis using assms(1) by simp
next
  case (deadline_err ip wb0 wb e)
  from reads_issued_deadline_err [OF this] assms(1) show ?thesis by simp
next
  case (listening ip wb0 wb)
  let ?rt = "replyType_of ip"
  have v: "verdict ip ?rt wb (ReadErr err) = Some False"
    using assms(2) by simp
  have mem: "ReadErr err \<in> set (reads_issued (loop_trace ip ?rt wb (ReadFrom env)))"
    using assms(1) by (simp add: reads_issued_listening [OF listening])
  from issued_verdict [OF mem v]
  have fv: "first_verdict ip ?rt wb (ReadFrom env) = Some False" .
  from loop_trace_decisive [OF mem v] obtain pre where
    pre: "loop_trace ip ?rt wb (ReadFrom env) = pre @ [ReadFrom_call (ReadErr err), decision_log False]"
      "reads_issued (loop_trace ip ?rt wb (ReadFrom env)) = reads_issued pre @ [ReadErr err]"
    by blast
  have tr: "trace_of (ProbeICMP env g) =
      (listening_trace env ip wb0 @ pre) @
      [ReadFrom_call (ReadErr err), Log Warn ''Timeout reading from socket'', Close_call]"
    by (simp add: ProbeICMP_sent_ok [OF listening] fv pre(1) decision_log_def)
  have "success_of (ProbeICMP env g) = Some False"
    by (simp add: success_listening [OF listening] fv)
  moreover have "last (reads_issued (trace_of (ProbeICMP env g))) = ReadErr err"
    by (simp add: reads_issued_listening [OF listening] pre(2))
  moreover have "drop (length (trace_of (ProbeICMP env g)) - 3) (trace_of (ProbeICMP env g)) =
      [ReadFrom_call (ReadErr err), Log Warn ''Timeout reading from socket'', Close_call]"
    unfolding tr by simp
  ultimately show ?thesis by blast
qed

lemma other_error_continues:
  assumes "k < length (reads_issued (trace_of (ProbeICMP env g)))"
    and "reads_issued (trace_of (ProbeICMP env g)) ! k = ReadErr err"
    and "\<not> timeout_error err"
    and "Suc k < length (ReadFrom env)"
  shows "Suc k < length (reads_issued (trace_of (ProbeICMP env g)))"
proof (cases env g rule: ProbeICMP_cases)
  case aborted
  then show ?thesis using assms(1) by simp
next
  case (deadline_err ip wb0 wb e)
  from reads_issued_deadline_err [OF this] assms(1) show ?thesis by simp
next
  case (listening ip wb0 wb)
  let ?is = "reads_issued (loop_trace ip (replyType_of ip) wb (ReadFrom env))"
  note eq = reads_issued_listening [OF listening]
  have k: "k < length ?is" using assms(1) by (simp add: eq)
  have "?is ! k = ReadFrom env ! k"
    using k issued_prefix [of ip "replyType_of ip" wb "ReadFrom env"]
    by (metis nth_take)
  then have "ReadFrom env ! k = ReadErr err" using assms(2) by (simp add: eq)
  then have "verdict ip (replyType_of ip) wb (ReadFrom env ! k) = None"
    using assms(3) by simp
  from issued_continues [OF k this assms(4)] show ?thesis by (simp add: eq)
qed

lemma other_error_logged:
  "count_list (trace_of (ProbeICMP env g)) (Log Error ''Error reading from socket'') =
   length (filter other_read_error (reads_issued (trace_of (ProbeICMP env g))))"
proof (cases env g rule: ProbeICMP_cases)
  case aborted
  then show ?thesis by simp
next
  case (deadline_err ip wb0 wb e)
  from ProbeICMP_sent_deadline_err [OF this] show ?thesis
    by (simp add: sent_trace_def opened_trace_def)
next
  case (listening ip wb0 wb)
  from ProbeICMP_sent_ok [OF this] show ?thesis
    by (simp add: reads_issued_append read_error_logged)
qed

lemma other_peer_verdict:
  "String peer \<noteq> String ip \<Longrightarrow> verdict ip rt wb (ReadOK data peer) = None"
  by simp

lemma first_verdict_no_timeout:
  "\<forall>r\<in>set rs. \<not> timeout_read r \<Longrightarrow> first_verdict ip rt wb rs \<noteq> Some False"
proof (induction rs)
  case Nil
  then show ?case by simp
next
  case (Cons a rs)
  then show ?case by (cases a) (auto split: option.splits if_splits)
qed

lemma first_verdict_reaches_match:
  assumes "\<forall>r\<in>set pre. \<not> timeout_read r"
    and "verdict ip rt wb r = Some True"
  shows "first_verdict ip rt wb (pre @ r # post) = Some True"
proof (cases "first_verdict ip rt wb pre")
  case None
  then show ?thesis using assms(2) by (simp add: first_verdict_append)
next
  case (Some b)
  then have "b" using first_verdict_no_timeout [OF assms(1), of ip rt wb] by (cases b) simp_all
  then show ?thesis using Some by (simp add: first_verdict_append)
qed

subsection \<open>Checksum bytes and lengths\<close>

lemma checksum_bytes_zeroed:
  "(take n (data[2 := a, 3 := b]))[2 := z, 3 := z'] = (take n data)[2 := z, 3 := z']"
proof (rule nth_equalityI)
  show "length ((take n (data[2 := a, 3 := b]))[2 := z, 3 := z']) =
        length ((take n data)[2 := z, 3 := z'])"
    by simp
next
  fix i
  assume "i < length ((take n (data[2 := a, 3 := b]))[2 := z, 3 := z'])"
  then have i: "i < length data" "i < n" by simp_all
  consider "i = 3" | "i = 2" | "i \<noteq> 2" "i \<noteq> 3" by blast
  then show "(take n (data[2 := a, 3 := b]))[2 := z, 3 := z'] ! i =
             (take n data)[2 := z, 3 := z'] ! i"
  proof cases
    case 1
    then show ?thesis using i by simp
  next
    case 2
    then show ?thesis using i by simp
  next
    case 3
    then show ?thesis using i by simp
  qed
qed

lemma v6_verdict_checksum:
  "verdict ip ipv6_ICMPTypeEchoReply wb (ReadOK (data[2 := a, 3 := b]) peer) =
   verdict ip ipv6_ICMPTypeEchoReply wb (ReadOK data peer)"
  by (simp add: checksum_bytes_zeroed)

lemma equal_but_checksum:
  assumes "length xs = length wb"
    and "\<forall>i<length wb. i \<noteq> 2 \<and> i \<noteq> 3 \<longrightarrow> xs ! i = wb ! i"
    and "wb[2 := z, 3 := z'] = wb"
  shows "xs[2 := z, 3 := z'] = wb"
proof -
  have "xs[2 := z, 3 := z'] = wb[2 := z, 3 := z']"
  proof (rule nth_equalityI)
    show "length (xs[2 := z, 3 := z']) = length (wb[2 := z, 3 := z'])"
      using assms(1) by simp
  next
    fix i
    assume "i < length (xs[2 := z, 3 := z'])"
    then have i: "i < length wb" using assms(1) by simp
    consider "i = 2" | "i = 3" | "i \<noteq> 2" "i \<noteq> 3" by blast
    then show "xs[2 := z, 3 := z'] ! i = wb[2 := z, 3 := z'] ! i"
    proof cases
      case 1
      then show ?thesis using i assms(1) by simp
    next
      case 2
      then show ?thesis using i assms(1) by simp
    next
      case 3
      then have "xs ! i = wb ! i" using i assms(2) by blast
      then show ?thesis using 3 by simp
    qed
  qed
  then show ?thesis using assms(3) by simp
qed

lemma length_mismatch_verdict:
  "length (take 1500 data) \<noteq> length wb \<Longrightarrow> verdict ip rt wb (ReadOK data peer) = None"
  by auto

lemma verdict_True_bytes_read:
  "verdict ip rt wb r = Some True \<Longrightarrow> bytes_read r = Some (length wb)"
  by (cases r) (auto split: if_splits)

subsection \<open>The read deadline\<close>

lemma deadlines_set_listening_trace [simp]:
  "deadlines_set (listening_trace env ip wb0) = [probe_deadline env]"
  by (simp add: listening_trace_def sent_trace_def opened_trace_def)

lemma deadlines_set_sent:
  assumes "sent_ok env g ip wb0 wb"
  shows "deadlines_set (trace_of (ProbeICMP env g)) = [probe_deadline env]"
proof (cases "SetReadDeadline env (probe_deadline env)")
  case None
  from ProbeICMP_sent_ok [OF assms None] show ?thesis
    by (simp add: deadlines_set_append)
next
  case (Some e)
  from ProbeICMP_sent_deadline_err [OF assms Some] show ?thesis
    by (simp add: deadlines_set_append sent_trace_def opened_trace_def)
qed

lemma deadlines_set_any:
  "set (deadlines_set (trace_of (ProbeICMP env g))) \<subseteq> {probe_deadline env}"
proof (cases env g rule: ProbeICMP_cases)
  case aborted
  then show ?thesis by simp
next
  case (deadline_err ip wb0 wb e)
  then show ?thesis by (simp add: deadlines_set_sent)
next
  case (listening ip wb0 wb)
  then show ?thesis by (simp add: deadlines_set_sent)
qed

lemma probe_deadline_eq:
  "ctx_Deadline env = (D, ok) \<Longrightarrow>
   probe_deadline env = Time_Add (Now_1 env) (Time_Sub D (Now_2 env))"
  by (simp add: probe_deadline_def)

lemma ProbeICMP_session_ctx [simp]:
  "ProbeICMP_session (env\<lparr>ctx_Deadline := c\<rparr>) g d ip requestType replyType tr =
   ProbeICMP_session env g d ip requestType replyType tr"
  by (simp add: ProbeICMP_session_def Let_def split: prod.splits sum.splits option.splits)

lemma ProbeICMP_ok_flag:
  "ProbeICMP (env\<lparr>ctx_Deadline := (D, ok)\<rparr>) g = ProbeICMP (env\<lparr>ctx_Deadline := (D, ok')\<rparr>) g"
  by (simp add: ProbeICMP_def probe_deadline_def Let_def split: prod.splits sum.splits option.splits)

lemma saturate_in_range:
  "minDuration \<le> d \<Longrightarrow> d \<le> maxDuration \<Longrightarrow> saturate d = d"
  by (simp add: saturate_def)

lemma saturate_nonpos: "saturate d \<le> 0 \<longleftrightarrow> d \<le> 0"
  by (simp add: saturate_def minDuration_def maxDuration_def)

lemma Time_Sub_monotonic:
  "monotonic t = Some a \<Longrightarrow> monotonic u = Some b \<Longrightarrow> Time_Sub t u = saturate (a - b)"
  by (simp add: Time_Sub_def)

lemma Time_Sub_wall:
  "monotonic t = None \<or> monotonic u = None \<Longrightarrow> Time_Sub t u = saturate (wall t - wall u)"
  by (auto simp: Time_Sub_def split: option.splits)

lemma wall_Time_Add [simp]: "wall (Time_Add t d) = wall t + d"
  by (simp add: Time_Add_def)

lemma monotonic_Time_Add:
  "monotonic t = Some m \<Longrightarrow> packed_wall (wall t + d) \<Longrightarrow>
   minDuration \<le> m + d \<Longrightarrow> m + d \<le> maxDuration \<Longrightarrow>
   monotonic (Time_Add t d) = Some (m + d)"
  by (simp add: Time_Add_def)

lemma sample_probe_deadline:
  "probe_deadline (sample_env ip rs) =
     \<lparr>wall = 64000000004999999850, monotonic = Some 11999999850\<rparr>"
  by (simp add: probe_deadline_def sample_env_def Time_Add_def Time_Sub_def saturate_def
      minDuration_def maxDuration_def packed_wall_def wallToInternal_def)

lemma sent_ok_ctx_Deadline_update [simp]:
  "sent_ok (env\<lparr>ctx_Deadline := c\<rparr>) g ip wb0 wb = sent_ok env g ip wb0 wb"
  by (simp add: sent_ok_def request_message_def reply_message_def echo_message_def)

lemma deliver_reached:
  assumes "\<not> IsZero deadline" and "\<forall>(at, r)\<in>set arrivals. Time_Sub deadline at \<le> 0"
  shows "deliver deadline arrivals = [ReadErr io_timeout]"
  using assms by (cases arrivals) auto

lemma no_deadline_wall:
  assumes "ctx_Deadline env = (zero_Time, ok)"
    and "2 ^ 63 < wall (Now_1 env)" and "wall (Now_1 env) \<le> wall (Now_2 env)"
  shows "wall (probe_deadline env) = wall (Now_1 env) - 2 ^ 63"
    and "monotonic (probe_deadline env) = None \<or>
         (\<exists>m. monotonic (Now_1 env) = Some m \<and> monotonic (probe_deadline env) = Some (m - 2 ^ 63))"
proof -
  have s: "Time_Sub zero_Time (Now_2 env) = minDuration"
    using assms(2,3) by (simp add: Time_Sub_def zero_Time_def saturate_def minDuration_def)
  show "wall (probe_deadline env) = wall (Now_1 env) - 2 ^ 63"
    by (simp add: probe_deadline_eq [OF assms(1)] s) (simp add: minDuration_def)
  show "monotonic (probe_deadline env) = None \<or>
         (\<exists>m. monotonic (Now_1 env) = Some m \<and> monotonic (probe_deadline env) = Some (m - 2 ^ 63))"
    by (simp add: probe_deadline_eq [OF assms(1)] s Time_Add_def split: option.splits)
       (simp add: minDuration_def)
qed

lemma no_deadline_reached:
  assumes "ctx_Deadline env = (zero_Time, ok)"
    and "2 ^ 63 < wall (Now_1 env)" and "wall (Now_1 env) \<le> wall (Now_2 env)"
    and "not_after (Now_1 env) at"
  shows "Time_Sub (probe_deadline env) at \<le> 0"
proof -
  note w = no_deadline_wall(1) [OF assms(1-3)]
  have wall_le: "wall (probe_deadline env) - wall at \<le> 0"
    using assms(4) by (simp add: w not_after_def)
  from no_deadline_wall(2) [OF assms(1-3)] show ?thesis
  proof
    assume "monotonic (probe_deadline env) = None"
    then show ?thesis using wall_le by (simp add: Time_Sub_def saturate_nonpos)
  next
    assume "\<exists>m. monotonic (Now_1 env) = Some m \<and> monotonic (probe_deadline env) = Some (m - 2 ^ 63)"
    then obtain m where m: "monotonic (Now_1 env) = Some m"
      "monotonic (probe_deadline env) = Some (m - 2 ^ 63)" by blast
    show ?thesis
    proof (cases "monotonic at")
      case None
      then show ?thesis using wall_le m by (simp add: Time_Sub_def saturate_nonpos)
    next
      case (Some b)
      then have "m \<le> b" using assms(4) m by (simp add: not_after_def)
      then show ?thesis using m Some by (simp add: Time_Sub_def saturate_nonpos)
    qed
  qed
qed

subsection \<open>Calls of the sequence counter, one after the other\<close>

lemma getICMPSequence_value:
  "fst (getICMPSequence g) = icmpSequence g + 1"
  "icmpSequence (snd (getICMPSequence g)) = icmpSequence g + 1"
  by (simp_all add: getICMPSequence_def)

lemma calls_Suc:
  "calls (Suc n) g =
     (fst (getICMPSequence g) # fst (calls n (snd (getICMPSequence g))),
      snd (calls n (snd (getICMPSequence g))))"
  by (simp add: split_beta)

lemma calls_fst:
  "fst (calls n g) = map (\<lambda>j. icmpSequence g + of_nat j) [Suc 0..<Suc n]"
proof (induction n arbitrary: g)
  case 0
  then show ?case by simp
next
  case (Suc n)
  let ?g = "snd (getICMPSequence g)"
  have "fst (calls n ?g) = map (\<lambda>j. icmpSequence ?g + of_nat j) [Suc 0..<Suc n]"
    by (rule Suc)
  also have "\<dots> = map (\<lambda>j. icmpSequence g + of_nat (Suc j)) [Suc 0..<Suc n]"
    by (simp add: getICMPSequence_value add.assoc del: upt_Suc)
  also have "\<dots> = map (\<lambda>j. icmpSequence g + of_nat j) (map Suc [Suc 0..<Suc n])"
    by (simp only: map_map comp_def)
  also have "\<dots> = map (\<lambda>j. icmpSequence g + of_nat j) [Suc (Suc 0)..<Suc (Suc n)]"
    by (simp only: map_Suc_upt)
  finally have tl: "fst (calls n ?g) =
      map (\<lambda>j. icmpSequence g + of_nat j) [Suc (Suc 0)..<Suc (Suc n)]" .
  have "[Suc 0..<Suc (Suc n)] = Suc 0 # [Suc (Suc 0)..<Suc (Suc n)]"
    by (rule upt_conv_Cons) simp
  then have "map (\<lambda>j. icmpSequence g + of_nat j) [Suc 0..<Suc (Suc n)] =
      (icmpSequence g + 1) # map (\<lambda>j. icmpSequence g + of_nat j) [Suc (Suc 0)..<Suc (Suc n)]"
    by (simp del: upt_Suc)
  then show ?case
    by (simp only: calls_Suc fst_conv tl getICMPSequence_value)
qed

lemma calls_snd:
  "icmpSequence (snd (calls n g)) = icmpSequence g + of_nat n"
proof (induction n arbitrary: g)
  case 0
  then show ?case by simp
next
  case (Suc n)
  show ?case
    by (simp only: calls_Suc snd_conv Suc getICMPSequence_value) (simp add: add.assoc)
qed

lemma calls_distinct:
  assumes "n \<le> 65536"
  shows "distinct (fst (calls n g))"
proof -
  have "inj_on (\<lambda>j. icmpSequence g + (of_nat j :: 16 word)) {Suc 0..<Suc n}"
  proof (rule inj_onI)
    fix i j
    assume i: "i \<in> {Suc 0..<Suc n}" and j: "j \<in> {Suc 0..<Suc n}"
      and "icmpSequence g + (of_nat i :: 16 word) = icmpSequence g + of_nat j"
    then have "(of_nat i :: 16 word) = of_nat j" by simp
    then have "i mod 65536 = j mod 65536"
      by (simp add: word_of_nat_eq_iff take_bit_eq_mod)
    moreover have "0 < i" "i \<le> 65536" "0 < j" "j \<le> 65536" using i j assms by auto
    ultimately show "i = j"
      by (cases "i = 65536"; cases "j = 65536") auto
  qed
  then show ?thesis by (simp add: calls_fst distinct_map del: upt_Suc)
qed

subsection \<open>The invariant of the mutex\<close>

lemma in_call_update_empty:
  assumes "in_call ts = []" and "i < length ts"
  shows "in_call (ts[i := p]) = (if p = Outside then [] else [p])"
proof -
  have all: "\<forall>x\<in>set ts. x = Outside"
    using assms(1) by (simp add: in_call_def filter_empty_conv)
  have "\<forall>x\<in>set (take i ts). x = Outside" "\<forall>x\<in>set (drop (Suc i) ts). x = Outside"
    using all by (auto dest: in_set_takeD in_set_dropD)
  then have "in_call (take i ts) = []" "in_call (drop (Suc i) ts) = []"
    by (simp_all add: in_call_def filter_empty_conv)
  then show ?thesis
    using assms(2) by (simp add: upd_conv_take_nth_drop in_call_def)
qed

lemma in_call_update_single:
  assumes "in_call ts = [q]" and "i < length ts" and "ts ! i \<noteq> Outside"
  shows "ts ! i = q \<and> in_call (ts[i := p]) = (if p = Outside then [] else [p])"
proof -
  have "ts = take i ts @ ts ! i # drop (Suc i) ts"
    using assms(2) by (rule id_take_nth_drop)
  then have "in_call ts = in_call (take i ts) @ ts ! i # in_call (drop (Suc i) ts)"
    using assms(3) by (metis (mono_tags, lifting) filter.simps(2) filter_append in_call_def)
  then have "in_call (take i ts) @ ts ! i # in_call (drop (Suc i) ts) = [q]"
    using assms(1) by simp
  then have e: "in_call (take i ts) = []" "ts ! i = q" "in_call (drop (Suc i) ts) = []"
    by (simp_all add: append_eq_Cons_conv)
  then show ?thesis
    using assms(2) by (simp add: upd_conv_take_nth_drop in_call_def)
qed

lemma in_call_nonempty:
  "i < length ts \<Longrightarrow> ts ! i \<noteq> Outside \<Longrightarrow> in_call ts \<noteq> []"
  by (auto simp: in_call_def filter_empty_conv)

lemma counter_inv_cases:
  assumes "counter_inv c0 s"
  obtains
    (free) "in_call (threads s) = []" "\<not> locked s"
      "icmpSequence (shared s) = c0 + of_nat (length (returned s))"
  | (held) p where "in_call (threads s) = [p]" "locked s"
      "holder_ok (c0 + of_nat (length (returned s))) (icmpSequence (shared s)) p"
  using assms by (auto simp: counter_inv_def split: list.splits)

lemma counter_inv_returned:
  "counter_inv c0 s \<Longrightarrow>
   map snd (returned s) = map (\<lambda>j. c0 + of_nat j) [Suc 0..<Suc (length (returned s))]"
  by (simp add: counter_inv_def)

lemma thread_step_simps:
  "length (threads s) \<le> i \<Longrightarrow> thread_step i s = s"
  "i < length (threads s) \<Longrightarrow> threads s ! i = Outside \<Longrightarrow> locked s \<Longrightarrow>
     thread_step i s = s"
  "i < length (threads s) \<Longrightarrow> threads s ! i = Outside \<Longrightarrow> \<not> locked s \<Longrightarrow>
     thread_step i s = s\<lparr>locked := True, threads := (threads s)[i := Holding]\<rparr>"
  "i < length (threads s) \<Longrightarrow> threads s ! i = Holding \<Longrightarrow>
     thread_step i s = s\<lparr>threads := (threads s)[i := Loaded (icmpSequence (shared s))]\<rparr>"
  "i < length (threads s) \<Longrightarrow> threads s ! i = Loaded v \<Longrightarrow>
     thread_step i s =
       s\<lparr>shared := (shared s)\<lparr>icmpSequence := v + 1\<rparr>, threads := (threads s)[i := Stored]\<rparr>"
  "i < length (threads s) \<Longrightarrow> threads s ! i = Stored \<Longrightarrow>
     thread_step i s =
       s\<lparr>threads := (threads s)[i := Returning (icmpSequence (shared s))],
         returned := returned s @ [(i, icmpSequence (shared s))]\<rparr>"
  "i < length (threads s) \<Longrightarrow> threads s ! i = Returning v \<Longrightarrow>
     thread_step i s = s\<lparr>locked := False, threads := (threads s)[i := Outside]\<rparr>"
  by (simp_all add: thread_step_def)

lemma counter_inv_step:
  assumes "counter_inv c0 s"
  shows "counter_inv c0 (thread_step i s)"
proof (cases "length (threads s) \<le> i")
  case True
  then show ?thesis using assms by (simp add: thread_step_simps)
next
  case False
  then have i: "i < length (threads s)" by simp
  note ret = counter_inv_returned [OF assms]
  let ?k = "length (returned s)"
  show ?thesis
  proof (cases "threads s ! i = Outside")
    case True
    show ?thesis
    proof (cases "locked s")
      case True
      then show ?thesis using assms i \<open>threads s ! i = Outside\<close>
        by (simp add: thread_step_simps)
    next
      case False
      from assms show ?thesis
      proof (cases rule: counter_inv_cases)
        case free
        have "in_call ((threads s)[i := Holding]) = [Holding]"
          using in_call_update_empty [OF free(1) i, of Holding] by simp
        then show ?thesis
          using free(3) ret
          by (simp add: thread_step_simps(3) [OF i True False] counter_inv_def holder_ok_def
              del: upt_Suc)
      next
        case (held p)
        then show ?thesis using False by simp
      qed
    qed
  next
    case False
    from assms show ?thesis
    proof (cases rule: counter_inv_cases)
      case free
      then show ?thesis using in_call_nonempty [OF i False] by simp
    next
      case (held p)
      have p: "threads s ! i = p"
        and upd: "in_call ((threads s)[i := q]) = (if q = Outside then [] else [q])" for q
        using in_call_update_single [OF held(1) i False] by simp_all
      show ?thesis
      proof (cases p)
        case Outside
        then show ?thesis using p False by simp
      next
        case Holding
        then have "icmpSequence (shared s) = c0 + of_nat ?k"
          using held(3) by (simp add: holder_ok_def)
        then show ?thesis
          using ret held(2) upd [of "Loaded (icmpSequence (shared s))"] p Holding
          by (simp add: thread_step_simps(4) [OF i] counter_inv_def holder_ok_def del: upt_Suc)
      next
        case (Loaded v)
        then have "v = c0 + of_nat ?k"
          using held(3) by (simp add: holder_ok_def)
        then show ?thesis
          using ret held(2) upd [of Stored] p Loaded
          by (simp add: thread_step_simps(5) [OF i] counter_inv_def holder_ok_def del: upt_Suc)
      next
        case Stored
        then have seq: "icmpSequence (shared s) = c0 + of_nat (Suc ?k)"
          using held(3) by (simp add: holder_ok_def add.assoc add.commute)
        have "map snd (returned s @ [(i, icmpSequence (shared s))]) =
              map (\<lambda>j. c0 + of_nat j) [Suc 0..<Suc (Suc ?k)]"
          using ret seq by simp
        then show ?thesis
          using seq held(2) upd [of "Returning (icmpSequence (shared s))"] p Stored
          by (simp add: thread_step_simps(6) [OF i] counter_inv_def holder_ok_def del: upt_Suc of_nat_Suc)
      next
        case (Returning v)
        then have "icmpSequence (shared s) = c0 + of_nat ?k"
          using held(3) by (simp add: holder_ok_def)
        then show ?thesis
          using ret upd [of Outside] p Returning
          by (simp add: thread_step_simps(7) [OF i] counter_inv_def del: upt_Suc)
      qed
    qed
  qed
qed

lemma counter_inv_run: "counter_inv c0 s \<Longrightarrow> counter_inv c0 (run_schedule sched s)"
  by (induction sched arbitrary: s) (simp_all add: counter_inv_step)

lemma counter_inv_init: "counter_inv (icmpSequence g) (init_sys g n)"
  by (simp add: counter_inv_def init_sys_def in_call_def)

lemma run_returned:
  "map snd (returned (run_schedule sched (init_sys g m))) =
     fst (calls (length (returned (run_schedule sched (init_sys g m)))) g)"
  using counter_inv_run [OF counter_inv_init [of g m], of sched]
  by (simp only: counter_inv_def calls_fst)

lemma run_quiescent:
  assumes "\<not> locked (run_schedule sched (init_sys g m))"
  shows "icmpSequence (shared (run_schedule sched (init_sys g m))) =
         icmpSequence (snd (calls (length (returned (run_schedule sched (init_sys g m)))) g))"
  using counter_inv_run [OF counter_inv_init [of g m], of sched]
proof (cases rule: counter_inv_cases)
  case free
  then show ?thesis by (simp add: calls_snd)
next
  case (held p)
  then show ?thesis using assms by simp
qed

text \<open>
  A thread that goes through a call with no other thread moving does what
  \<open>getICMPSequence\<close> does.
\<close>

lemma solo_call:
  assumes "\<not> locked s" and "i < length (threads s)" and "threads s ! i = Outside"
  shows "shared (run_schedule [i, i, i, i, i] s) = snd (getICMPSequence (shared s)) \<and>
         returned (run_schedule [i, i, i, i, i] s) = returned s @ [(i, fst (getICMPSequence (shared s)))] \<and>
         locked (run_schedule [i, i, i, i, i] s) = locked s \<and>
         threads (run_schedule [i, i, i, i, i] s) = threads s"
  using assms
  by (simp add: thread_step_def getICMPSequence_def list_update_same_conv)

lemma run_two_callers:
  "run_schedule two_callers (init_sys g0 2) =
     \<lparr>shared = \<lparr>icmpSequence = 1\<rparr>, locked = False, threads = [Outside, Outside],
      returned = [(0, 0), (1, 1)]\<rparr>"
  by code_simp

section \<open>The claims\<close>

text \<open>
  C1. When resolution, socket open, both marshals and the send have succeeded, a packet
  that the probe receives from an address whose string form is the target's, and whose
  bytes (for IPv6 with bytes 2 and 3 set to zero) are the marshalled expected reply,
  makes \<open>ProbeICMP\<close> return true. The expected reply is the marshalling of the sent
  message with only its type switched to the echo-reply type of the address family.
\<close>

theorem C1_matching_reply_returns_true:
  assumes "sent_ok env g ip wb0 wb"
    and "ReadOK data peer \<in> set (reads_issued (trace_of (ProbeICMP env g)))"
    and "String peer = String ip"
    and "(if To4_nil ip then (take 1500 data)[2 := 0, 3 := 0] else take 1500 data) = wb"
  shows "success_of (ProbeICMP env g) = Some True \<and>
         reply_message env g ip = (request_message env g ip)\<lparr>Type := replyType_of ip\<rparr>"
proof
  have "verdict ip (replyType_of ip) wb (ReadOK data peer) = Some True"
    using assms(3,4) by simp
  from received_verdict [OF assms(1,2) this]
  show "success_of (ProbeICMP env g) = Some True" .
  show "reply_message env g ip = (request_message env g ip)\<lparr>Type := replyType_of ip\<rparr>"
    by (simp add: reply_message_def request_message_def echo_message_def)
qed

theorem C1_matching_reply_returns_true_witness:
  "success_of (ProbeICMP (sample_env target6 [echo6]) g0) = Some True \<and>
   success_of (ProbeICMP (sample_env target4 [echo4]) g0) = Some True"
proof -
  have r6: "ReadOK ([129, 0, 77, 200, 17, 112, 0, 0] @ payload) target6
              \<in> set (reads_issued (trace_of (ProbeICMP (sample_env target6 [echo6]) g0)))"
    using verdict_echo6
    by (simp add: sample_run6 reads_issued_append) (simp add: echo6_def)
  have m6: "(if To4_nil target6
             then (take 1500 ([129, 0, 77, 200, 17, 112, 0, 0] @ payload))[2 := 0, 3 := 0]
             else take 1500 ([129, 0, 77, 200, 17, 112, 0, 0] @ payload)) = reply6"
    by (simp add: target6_def reply6_def payload_length)
  have r4: "ReadOK reply4 target4
              \<in> set (reads_issued (trace_of (ProbeICMP (sample_env target4 [echo4]) g0)))"
    using verdict_echo4
    by (simp add: sample_run4 reads_issued_append) (simp add: echo4_def)
  have m4: "(if To4_nil target4 then (take 1500 reply4)[2 := 0, 3 := 0] else take 1500 reply4)
              = reply4"
    by (simp add: target4_def reply4_def payload_length)
  from C1_matching_reply_returns_true [OF sample_sent_ok6 r6 refl m6]
    C1_matching_reply_returns_true [OF sample_sent_ok4 r4 refl m4]
  show ?thesis by simp
qed

text \<open>
  C2. A receive error that is a timeout makes \<open>ProbeICMP\<close> return false at once: it is
  the last read issued, and only the warning and the deferred close follow it. A receive
  error that is not a timeout does not end the probe: the outcome is the one of the
  script without it, the loop issues the next read whenever the script has one, and
  every such error is logged once.
\<close>

theorem C2_receive_errors:
  "(ReadErr err \<in> set (reads_issued (trace_of (ProbeICMP env g))) \<and> timeout_error err \<longrightarrow>
      success_of (ProbeICMP env g) = Some False \<and>
      last (reads_issued (trace_of (ProbeICMP env g))) = ReadErr err \<and>
      drop (length (trace_of (ProbeICMP env g)) - 3) (trace_of (ProbeICMP env g)) =
        [ReadFrom_call (ReadErr err), Log Warn ''Timeout reading from socket'', Close_call])
   \<and>
   (\<not> timeout_error err \<longrightarrow>
      success_of (ProbeICMP (env\<lparr>ReadFrom := pre @ ReadErr err # post\<rparr>) g) =
      success_of (ProbeICMP (env\<lparr>ReadFrom := pre @ post\<rparr>) g))
   \<and>
   (k < length (reads_issued (trace_of (ProbeICMP env g))) \<and>
    reads_issued (trace_of (ProbeICMP env g)) ! k = ReadErr err \<and>
    \<not> timeout_error err \<and> Suc k < length (ReadFrom env) \<longrightarrow>
      Suc k < length (reads_issued (trace_of (ProbeICMP env g))))
   \<and>
   count_list (trace_of (ProbeICMP env g)) (Log Error ''Error reading from socket'') =
     length (filter other_read_error (reads_issued (trace_of (ProbeICMP env g))))"
proof (intro conjI impI)
  assume a: "ReadErr err \<in> set (reads_issued (trace_of (ProbeICMP env g))) \<and> timeout_error err"
  then have a1: "ReadErr err \<in> set (reads_issued (trace_of (ProbeICMP env g)))"
    and a2: "timeout_error err" by simp_all
  from timeout_returns_false [OF a1 a2]
  show "success_of (ProbeICMP env g) = Some False"
    and "last (reads_issued (trace_of (ProbeICMP env g))) = ReadErr err"
    and "drop (length (trace_of (ProbeICMP env g)) - 3) (trace_of (ProbeICMP env g)) =
        [ReadFrom_call (ReadErr err), Log Warn ''Timeout reading from socket'', Close_call]"
    by simp_all
next
  assume "\<not> timeout_error err"
  then show "success_of (ProbeICMP (env\<lparr>ReadFrom := pre @ ReadErr err # post\<rparr>) g) =
      success_of (ProbeICMP (env\<lparr>ReadFrom := pre @ post\<rparr>) g)"
    by (intro success_script first_verdict_skip other_error_verdict)
next
  assume "k < length (reads_issued (trace_of (ProbeICMP env g))) \<and>
    reads_issued (trace_of (ProbeICMP env g)) ! k = ReadErr err \<and>
    \<not> timeout_error err \<and> Suc k < length (ReadFrom env)"
  then show "Suc k < length (reads_issued (trace_of (ProbeICMP env g)))"
    using other_error_continues by blast
next
  show "count_list (trace_of (ProbeICMP env g)) (Log Error ''Error reading from socket'') =
     length (filter other_read_error (reads_issued (trace_of (ProbeICMP env g))))"
    by (rule other_error_logged)
qed

theorem C2_receive_errors_witness:
  "success_of (ProbeICMP (sample_env target4 [ReadErr refused, ReadErr io_timeout, echo4]) g0)
     = Some False \<and>
   reads_issued
     (trace_of (ProbeICMP (sample_env target4 [ReadErr refused, ReadErr io_timeout, echo4]) g0))
     = [ReadErr refused, ReadErr io_timeout] \<and>
   success_of (ProbeICMP (sample_env target4 [ReadErr refused, echo4]) g0) = Some True \<and>
   count_list
     (trace_of (ProbeICMP (sample_env target4 [ReadErr refused, ReadErr io_timeout, echo4]) g0))
     (Log Error ''Error reading from socket'') = 1"
proof -
  let ?env = "sample_env target4 [ReadErr refused, ReadErr io_timeout, echo4]"
  have iss: "reads_issued (trace_of (ProbeICMP ?env g0)) = [ReadErr refused, ReadErr io_timeout]"
    by (simp add: sample_run4 reads_issued_append refused_def io_timeout_def)
  have t: "ReadErr io_timeout \<in> set (reads_issued (trace_of (ProbeICMP ?env g0))) \<and>
           timeout_error io_timeout"
    by (simp add: iss) (simp add: io_timeout_def)
  have n: "\<not> timeout_error refused" by (simp add: refused_def)
  have k: "0 < length (reads_issued (trace_of (ProbeICMP ?env g0))) \<and>
           reads_issued (trace_of (ProbeICMP ?env g0)) ! 0 = ReadErr refused \<and>
           \<not> timeout_error refused \<and> Suc 0 < length (ReadFrom ?env)"
    by (simp add: iss n) (simp add: sample_env_def)
  have e: "(sample_env target4 [])\<lparr>ReadFrom := [] @ ReadErr refused # [echo4]\<rparr> =
           sample_env target4 [ReadErr refused, echo4]"
          "(sample_env target4 [])\<lparr>ReadFrom := [] @ [echo4]\<rparr> = sample_env target4 [echo4]"
    by (simp_all add: sample_env_def)
  have m: "success_of (ProbeICMP (sample_env target4 [echo4]) g0) = Some True"
    using verdict_echo4 by (simp add: sample_run4)
  from C2_receive_errors [of io_timeout ?env g0 "[]" "[]" 0] t
  have 1: "success_of (ProbeICMP ?env g0) = Some False" by blast
  from C2_receive_errors [of refused "sample_env target4 []" g0 "[]" "[echo4]" 0] n e m
  have 2: "success_of (ProbeICMP (sample_env target4 [ReadErr refused, echo4]) g0) = Some True"
    by simp
  from C2_receive_errors [of refused ?env g0 "[]" "[]" 0] k
  have 3: "Suc 0 < length (reads_issued (trace_of (ProbeICMP ?env g0)))" by blast
  from C2_receive_errors [of refused ?env g0 "[]" "[]" 0]
  have 4: "count_list (trace_of (ProbeICMP ?env g0)) (Log Error ''Error reading from socket'') =
     length (filter other_read_error (reads_issued (trace_of (ProbeICMP ?env g0))))"
    by blast
  have 5: "length (filter other_read_error (reads_issued (trace_of (ProbeICMP ?env g0)))) = 1"
    unfolding iss by (simp add: refused_def io_timeout_def)
  show ?thesis using 1 2 3 4 5 iss by simp
qed

text \<open>
  C3. A received packet whose sender's string form differs from the target's is
  discarded whatever its bytes are, and the loop goes on: the outcome is the one of the
  script without that packet. When a later packet comes from the target with the expected
  bytes, and no read before it timed out, \<open>ProbeICMP\<close> still returns true.
\<close>

theorem C3_other_peer_discarded:
  assumes "chooseProtocol env = Inr ip" and "String peer \<noteq> String ip"
  shows
   "success_of (ProbeICMP (env\<lparr>ReadFrom := pre @ ReadOK data peer # post\<rparr>) g) =
    success_of (ProbeICMP (env\<lparr>ReadFrom := pre @ post\<rparr>) g)
    \<and>
    (sent_ok env g ip wb0 wb \<and> SetReadDeadline env (probe_deadline env) = None \<and>
     ReadFrom env = pre @ ReadOK data peer # mid @ ReadOK data' peer' # post \<and>
     (\<forall>r\<in>set (pre @ mid). \<not> timeout_read r) \<and>
     String peer' = String ip \<and>
     (if To4_nil ip then (take 1500 data')[2 := 0, 3 := 0] else take 1500 data') = wb \<longrightarrow>
       success_of (ProbeICMP env g) = Some True)"
proof (intro conjI impI)
  show "success_of (ProbeICMP (env\<lparr>ReadFrom := pre @ ReadOK data peer # post\<rparr>) g) =
    success_of (ProbeICMP (env\<lparr>ReadFrom := pre @ post\<rparr>) g)"
  proof (rule success_script)
    fix ip' wb
    assume "chooseProtocol env = Inr ip'"
    then have "ip' = ip" using assms(1) by simp
    then show "first_verdict ip' (replyType_of ip') wb (pre @ ReadOK data peer # post) =
               first_verdict ip' (replyType_of ip') wb (pre @ post)"
      using assms(2) by (intro first_verdict_skip other_peer_verdict) simp
  qed
next
  assume a: "sent_ok env g ip wb0 wb \<and> SetReadDeadline env (probe_deadline env) = None \<and>
     ReadFrom env = pre @ ReadOK data peer # mid @ ReadOK data' peer' # post \<and>
     (\<forall>r\<in>set (pre @ mid). \<not> timeout_read r) \<and>
     String peer' = String ip \<and>
     (if To4_nil ip then (take 1500 data')[2 := 0, 3 := 0] else take 1500 data') = wb"
  then have ok: "sent_ok env g ip wb0 wb" and dl: "SetReadDeadline env (probe_deadline env) = None"
    and script: "ReadFrom env = (pre @ ReadOK data peer # mid) @ ReadOK data' peer' # post"
    by simp_all
  have nt: "\<forall>r\<in>set (pre @ ReadOK data peer # mid). \<not> timeout_read r"
    using a by auto
  have v: "verdict ip (replyType_of ip) wb (ReadOK data' peer') = Some True"
    using a by simp
  have fv: "first_verdict ip (replyType_of ip) wb (ReadFrom env) = Some True"
    unfolding script by (rule first_verdict_reaches_match [OF nt v])
  then show "success_of (ProbeICMP env g) = Some True"
    by (simp add: success_listening [OF ok dl])
qed

theorem C3_other_peer_discarded_witness:
  "success_of (ProbeICMP (sample_env target6 [stray6]) g0) = None \<and>
   success_of (ProbeICMP (sample_env target6 [stray6, echo6]) g0) = Some True"
proof -
  let ?env = "sample_env target6 [stray6, echo6]"
  have ip: "chooseProtocol (sample_env target6 []) = Inr target6"
           "chooseProtocol ?env = Inr target6"
    by (simp_all add: sample_env_def)
  have peer: "String other6 \<noteq> String target6"
    by (simp add: other6_def target6_def)
  have e: "(sample_env target6 [])\<lparr>ReadFrom := [] @ stray6 # []\<rparr> = sample_env target6 [stray6]"
          "(sample_env target6 [])\<lparr>ReadFrom := [] @ []\<rparr> = sample_env target6 []"
    by (simp_all add: sample_env_def)
  have none: "success_of (ProbeICMP (sample_env target6 []) g0) = None"
    by (simp add: sample_run6)
  have b: "sent_ok ?env g0 target6 request6 reply6 \<and>
     SetReadDeadline ?env (probe_deadline ?env) = None \<and>
     ReadFrom ?env = [] @ ReadOK ([129, 0, 1, 2, 17, 112, 0, 0] @ payload) other6 # [] @
        ReadOK ([129, 0, 77, 200, 17, 112, 0, 0] @ payload) target6 # [] \<and>
     (\<forall>r\<in>set ([] @ []). \<not> timeout_read r) \<and>
     String target6 = String target6 \<and>
     (if To4_nil target6
      then (take 1500 ([129, 0, 77, 200, 17, 112, 0, 0] @ payload))[2 := 0, 3 := 0]
      else take 1500 ([129, 0, 77, 200, 17, 112, 0, 0] @ payload)) = reply6"
  proof (intro conjI)
    show "sent_ok ?env g0 target6 request6 reply6" by (rule sample_sent_ok6)
    show "SetReadDeadline ?env (probe_deadline ?env) = None" by (simp add: sample_env_def)
    show "ReadFrom ?env = [] @ ReadOK ([129, 0, 1, 2, 17, 112, 0, 0] @ payload) other6 # [] @
        ReadOK ([129, 0, 77, 200, 17, 112, 0, 0] @ payload) target6 # []"
      by (simp add: sample_env_def stray6_def echo6_def)
    show "\<forall>r\<in>set ([] @ []). \<not> timeout_read r" by simp
    show "String target6 = String target6" by simp
    show "(if To4_nil target6
      then (take 1500 ([129, 0, 77, 200, 17, 112, 0, 0] @ payload))[2 := 0, 3 := 0]
      else take 1500 ([129, 0, 77, 200, 17, 112, 0, 0] @ payload)) = reply6"
      by (simp add: reply6_def payload_length target6_def)
  qed
  have "success_of (ProbeICMP ((sample_env target6 [])\<lparr>ReadFrom :=
            [] @ ReadOK ([129, 0, 1, 2, 17, 112, 0, 0] @ payload) other6 # []\<rparr>) g0) =
        success_of (ProbeICMP ((sample_env target6 [])\<lparr>ReadFrom := [] @ []\<rparr>) g0)"
    by (rule C3_other_peer_discarded [OF ip(1) peer, THEN conjunct1])
  then have 1: "success_of (ProbeICMP (sample_env target6 [stray6]) g0) = None"
    using e none by (simp only: stray6_def)
  have 2: "success_of (ProbeICMP ?env g0) = Some True"
    by (rule C3_other_peer_discarded [OF ip(2) peer,
      of "[]" "[129, 0, 1, 2, 17, 112, 0, 0] @ payload" "[]" g0 request6 reply6 "[]"
         "[129, 0, 77, 200, 17, 112, 0, 0] @ payload" target6, THEN conjunct2, THEN mp, OF b])
  show ?thesis using 1 2 by simp
qed

text \<open>
  C4. For an IPv6 target the outcome does not depend on bytes 2 and 3 of a received
  packet. When the expected reply has zero checksum bytes (as a message marshalled
  without a pseudo-header has), a packet received from the target that agrees with the
  expected reply at every offset other than 2 and 3 is a match.
\<close>

theorem C4_ipv6_checksum_ignored:
  assumes "chooseProtocol env = Inr ip" and "To4_nil ip"
  shows
   "success_of (ProbeICMP (env\<lparr>ReadFrom := pre @ ReadOK (data[2 := a, 3 := b]) peer # post\<rparr>) g) =
    success_of (ProbeICMP (env\<lparr>ReadFrom := pre @ ReadOK data peer # post\<rparr>) g)
    \<and>
    (sent_ok env g ip wb0 wb \<and> wb[2 := 0, 3 := 0] = wb \<and>
     ReadOK data peer \<in> set (reads_issued (trace_of (ProbeICMP env g))) \<and>
     String peer = String ip \<and>
     length (take 1500 data) = length wb \<and>
     (\<forall>i<length wb. i \<noteq> 2 \<and> i \<noteq> 3 \<longrightarrow> take 1500 data ! i = wb ! i) \<longrightarrow>
       success_of (ProbeICMP env g) = Some True)"
proof (intro conjI impI)
  show "success_of (ProbeICMP (env\<lparr>ReadFrom := pre @ ReadOK (data[2 := a, 3 := b]) peer # post\<rparr>) g) =
    success_of (ProbeICMP (env\<lparr>ReadFrom := pre @ ReadOK data peer # post\<rparr>) g)"
  proof (rule success_script)
    fix ip' wb
    assume "chooseProtocol env = Inr ip'"
    then have "ip' = ip" using assms(1) by simp
    then have "replyType_of ip' = ipv6_ICMPTypeEchoReply" using assms(2) by simp
    then show "first_verdict ip' (replyType_of ip') wb (pre @ ReadOK (data[2 := a, 3 := b]) peer # post) =
               first_verdict ip' (replyType_of ip') wb (pre @ ReadOK data peer # post)"
      by (intro first_verdict_same) (simp only: v6_verdict_checksum)
  qed
next
  assume h: "sent_ok env g ip wb0 wb \<and> wb[2 := 0, 3 := 0] = wb \<and>
     ReadOK data peer \<in> set (reads_issued (trace_of (ProbeICMP env g))) \<and>
     String peer = String ip \<and>
     length (take 1500 data) = length wb \<and>
     (\<forall>i<length wb. i \<noteq> 2 \<and> i \<noteq> 3 \<longrightarrow> take 1500 data ! i = wb ! i)"
  then have ok: "sent_ok env g ip wb0 wb"
    and zero: "wb[2 := 0, 3 := 0] = wb"
    and rcv: "ReadOK data peer \<in> set (reads_issued (trace_of (ProbeICMP env g)))"
    and peer: "String peer = String ip"
    and len: "length (take 1500 data) = length wb"
    and same: "\<forall>i<length wb. i \<noteq> 2 \<and> i \<noteq> 3 \<longrightarrow> take 1500 data ! i = wb ! i"
    by blast+
  have "(take 1500 data)[2 := 0, 3 := 0] = wb"
    by (rule equal_but_checksum [OF len same zero])
  then have "verdict ip (replyType_of ip) wb (ReadOK data peer) = Some True"
    using peer assms(2) by simp
  from received_verdict [OF ok rcv this]
  show "success_of (ProbeICMP env g) = Some True" .
qed

theorem C4_ipv6_checksum_ignored_witness:
  "success_of (ProbeICMP (sample_env target6 [echo6]) g0) = Some True \<and>
   success_of (ProbeICMP (sample_env target6 [ReadOK reply6 target6]) g0) = Some True"
proof -
  let ?env = "sample_env target6 [echo6]"
  let ?data = "[129, 0, 77, 200, 17, 112, 0, 0] @ payload"
  have ip: "chooseProtocol ?env = Inr target6" "chooseProtocol (sample_env target6 []) = Inr target6"
    by (simp_all add: sample_env_def)
  have v6: "To4_nil target6" by (simp add: target6_def)
  have zero: "reply6[2 := 0, 3 := 0] = reply6" by (simp add: reply6_def)
  have rcv: "ReadOK ?data target6 \<in> set (reads_issued (trace_of (ProbeICMP ?env g0)))"
    using verdict_echo6 by (simp add: sample_run6 reads_issued_append) (simp add: echo6_def)
  have len: "length (take 1500 ?data) = length reply6"
    by (simp add: reply6_def payload_length)
  have same: "\<forall>i<length reply6. i \<noteq> 2 \<and> i \<noteq> 3 \<longrightarrow> take 1500 ?data ! i = reply6 ! i"
  proof (intro allI impI)
    fix i
    assume "i < length reply6" and "i \<noteq> 2 \<and> i \<noteq> 3"
    then have "(take 1500 ?data)[2 := 0, 3 := 0] ! i = take 1500 ?data ! i"
      by (metis nth_list_update_neq)
    moreover have "(take 1500 ?data)[2 := 0, 3 := 0] = reply6"
      by (simp add: reply6_def payload_length)
    ultimately show "take 1500 ?data ! i = reply6 ! i" by simp
  qed
  have h: "sent_ok ?env g0 target6 request6 reply6 \<and> reply6[2 := 0, 3 := 0] = reply6 \<and>
     ReadOK ?data target6 \<in> set (reads_issued (trace_of (ProbeICMP ?env g0))) \<and>
     String target6 = String target6 \<and>
     length (take 1500 ?data) = length reply6 \<and>
     (\<forall>i<length reply6. i \<noteq> 2 \<and> i \<noteq> 3 \<longrightarrow> take 1500 ?data ! i = reply6 ! i)"
    using sample_sent_ok6 zero rcv len same by blast
  have 1: "success_of (ProbeICMP ?env g0) = Some True"
    by (rule C4_ipv6_checksum_ignored [OF ip(1) v6, THEN conjunct2, THEN mp, OF h])
  have "success_of (ProbeICMP ((sample_env target6 [])\<lparr>ReadFrom :=
           [] @ ReadOK (?data[2 := 0, 3 := 0]) target6 # []\<rparr>) g0) =
        success_of (ProbeICMP ((sample_env target6 [])\<lparr>ReadFrom :=
           [] @ ReadOK ?data target6 # []\<rparr>) g0)"
    by (rule C4_ipv6_checksum_ignored [OF ip(2) v6, THEN conjunct1])
  moreover have "(sample_env target6 [])\<lparr>ReadFrom := [] @ ReadOK (?data[2 := 0, 3 := 0]) target6 # []\<rparr>
      = sample_env target6 [ReadOK reply6 target6]"
    by (simp add: sample_env_def reply6_def)
  moreover have "(sample_env target6 [])\<lparr>ReadFrom := [] @ ReadOK ?data target6 # []\<rparr> = ?env"
    by (simp add: sample_env_def echo6_def)
  ultimately have 2: "success_of (ProbeICMP (sample_env target6 [ReadOK reply6 target6]) g0) = Some True"
    using 1 by simp
  show ?thesis using 1 2 by simp
qed

text \<open>
  C5. A resolution error, a socket-open error, a marshal error (of the request or of the
  expected reply) and a write error each make \<open>ProbeICMP\<close> return false at once: the
  failed call is made once and nothing after it runs. In particular no read is ever
  issued, and when marshalling the request fails no packet is written either.
\<close>

theorem C5_setup_errors_abort:
  "(chooseProtocol env = Inl e \<longrightarrow>
      success_of (ProbeICMP env g) = Some False \<and>
      listen_calls (trace_of (ProbeICMP env g)) = 0 \<and>
      packets_written (trace_of (ProbeICMP env g)) = [] \<and>
      reads_issued (trace_of (ProbeICMP env g)) = [])
   \<and>
   (chooseProtocol env = Inr ip \<and>
    ListenPacket env (network_of ip) (address_of ip) = Some e \<longrightarrow>
      success_of (ProbeICMP env g) = Some False \<and>
      listen_calls (trace_of (ProbeICMP env g)) = 1 \<and>
      packets_written (trace_of (ProbeICMP env g)) = [] \<and>
      reads_issued (trace_of (ProbeICMP env g)) = [])
   \<and>
   (chooseProtocol env = Inr ip \<and>
    ListenPacket env (network_of ip) (address_of ip) = None \<and>
    Marshal env (request_message env g ip) = Inl e \<longrightarrow>
      success_of (ProbeICMP env g) = Some False \<and>
      listen_calls (trace_of (ProbeICMP env g)) = 1 \<and>
      packets_written (trace_of (ProbeICMP env g)) = [] \<and>
      reads_issued (trace_of (ProbeICMP env g)) = [])
   \<and>
   (chooseProtocol env = Inr ip \<and>
    ListenPacket env (network_of ip) (address_of ip) = None \<and>
    Marshal env (request_message env g ip) = Inr wb0 \<and>
    WriteTo env wb0 ip = Some e \<longrightarrow>
      success_of (ProbeICMP env g) = Some False \<and>
      listen_calls (trace_of (ProbeICMP env g)) = 1 \<and>
      packets_written (trace_of (ProbeICMP env g)) = [wb0] \<and>
      reads_issued (trace_of (ProbeICMP env g)) = [])
   \<and>
   (chooseProtocol env = Inr ip \<and>
    ListenPacket env (network_of ip) (address_of ip) = None \<and>
    Marshal env (request_message env g ip) = Inr wb0 \<and>
    WriteTo env wb0 ip = None \<and>
    Marshal env (reply_message env g ip) = Inl e \<longrightarrow>
      success_of (ProbeICMP env g) = Some False \<and>
      listen_calls (trace_of (ProbeICMP env g)) = 1 \<and>
      packets_written (trace_of (ProbeICMP env g)) = [wb0] \<and>
      reads_issued (trace_of (ProbeICMP env g)) = [])"
proof (intro conjI impI)
  assume "chooseProtocol env = Inl e"
  note r = ProbeICMP_resolve_err [OF this, of g]
  show "success_of (ProbeICMP env g) = Some False"
    and "listen_calls (trace_of (ProbeICMP env g)) = 0"
    and "packets_written (trace_of (ProbeICMP env g)) = []"
    and "reads_issued (trace_of (ProbeICMP env g)) = []"
    by (simp_all add: r)
next
  assume "chooseProtocol env = Inr ip \<and>
    ListenPacket env (network_of ip) (address_of ip) = Some e"
  then have r: "ProbeICMP env g =
     (Some False, g,
      [Log Info ''Creating socket'',
       ListenPacket_call (network_of ip) (address_of ip) (Some e),
       Log Error ''Error listening to socket''])"
    by (simp add: ProbeICMP_listen_err)
  show "success_of (ProbeICMP env g) = Some False"
    and "listen_calls (trace_of (ProbeICMP env g)) = 1"
    and "packets_written (trace_of (ProbeICMP env g)) = []"
    and "reads_issued (trace_of (ProbeICMP env g)) = []"
    by (simp_all add: r)
next
  assume "chooseProtocol env = Inr ip \<and>
    ListenPacket env (network_of ip) (address_of ip) = None \<and>
    Marshal env (request_message env g ip) = Inl e"
  then have r: "ProbeICMP env g =
     (Some False, snd (getICMPSequence g),
      opened_trace ip @ [Log Error ''Error marshalling packet'', Close_call])"
    by (simp add: ProbeICMP_marshal_request_err)
  show "success_of (ProbeICMP env g) = Some False"
    and "listen_calls (trace_of (ProbeICMP env g)) = 1"
    and "packets_written (trace_of (ProbeICMP env g)) = []"
    and "reads_issued (trace_of (ProbeICMP env g)) = []"
    by (simp_all add: r opened_trace_def)
next
  assume "chooseProtocol env = Inr ip \<and>
    ListenPacket env (network_of ip) (address_of ip) = None \<and>
    Marshal env (request_message env g ip) = Inr wb0 \<and>
    WriteTo env wb0 ip = Some e"
  then have r: "ProbeICMP env g =
     (Some False, snd (getICMPSequence g),
      sent_trace ip wb0 @ [Log Warn ''Error writing to socket'', Close_call])"
    by (simp add: ProbeICMP_write_err)
  show "success_of (ProbeICMP env g) = Some False"
    and "listen_calls (trace_of (ProbeICMP env g)) = 1"
    and "packets_written (trace_of (ProbeICMP env g)) = [wb0]"
    and "reads_issued (trace_of (ProbeICMP env g)) = []"
    by (simp_all add: r opened_trace_def sent_trace_def)
next
  assume "chooseProtocol env = Inr ip \<and>
    ListenPacket env (network_of ip) (address_of ip) = None \<and>
    Marshal env (request_message env g ip) = Inr wb0 \<and>
    WriteTo env wb0 ip = None \<and>
    Marshal env (reply_message env g ip) = Inl e"
  then have r: "ProbeICMP env g =
     (Some False, snd (getICMPSequence g),
      sent_trace ip wb0 @ [Log Error ''Error marshalling packet'', Close_call])"
    by (simp add: ProbeICMP_marshal_reply_err)
  show "success_of (ProbeICMP env g) = Some False"
    and "listen_calls (trace_of (ProbeICMP env g)) = 1"
    and "packets_written (trace_of (ProbeICMP env g)) = [wb0]"
    and "reads_issued (trace_of (ProbeICMP env g)) = []"
    by (simp_all add: r opened_trace_def sent_trace_def)
qed

theorem C5_setup_errors_abort_witness:
  "success_of (ProbeICMP ((sample_env target4 [])\<lparr>chooseProtocol := Inl denied\<rparr>) g0) = Some False \<and>
   success_of (ProbeICMP ((sample_env target4 [])\<lparr>ListenPacket := \<lambda>_ _. Some denied\<rparr>) g0) = Some False \<and>
   packets_written
     (trace_of (ProbeICMP ((sample_env target4 [])\<lparr>Marshal := \<lambda>_. Inl denied\<rparr>) g0)) = [] \<and>
   reads_issued
     (trace_of (ProbeICMP ((sample_env target4 [])\<lparr>Marshal := \<lambda>_. Inl denied\<rparr>) g0)) = [] \<and>
   packets_written
     (trace_of (ProbeICMP ((sample_env target4 [])\<lparr>WriteTo := \<lambda>_ _. Some denied\<rparr>) g0)) = [request4] \<and>
   success_of (ProbeICMP ((sample_env target4 [])\<lparr>Marshal := no_reply_Marshal\<rparr>) g0) = Some False"
proof -
  let ?e = "sample_env target4 []"
  have req: "sample_Marshal (request_message (?e\<lparr>WriteTo := \<lambda>_ _. Some denied\<rparr>) g0 target4) = Inr request4"
    using sample_request4 [of "[]"] by (simp add: request_message_def echo_message_def sample_env_def)
  have req': "no_reply_Marshal (request_message (?e\<lparr>Marshal := no_reply_Marshal\<rparr>) g0 target4) = Inr request4"
    using sample_request4 [of "[]"]
    by (simp add: no_reply_Marshal_def request_message_def echo_message_def sample_env_def
        requestType_of_def target4_def ipv4_ICMPTypeEcho_def ipv4_ICMPTypeEchoReply_def)
  have rep': "no_reply_Marshal (reply_message (?e\<lparr>Marshal := no_reply_Marshal\<rparr>) g0 target4) = Inl denied"
    by (simp add: no_reply_Marshal_def reply_message_def echo_message_def
        replyType_of_def target4_def)
  show ?thesis
    using C5_setup_errors_abort [of "?e\<lparr>chooseProtocol := Inl denied\<rparr>" denied g0 target4 request4]
      C5_setup_errors_abort [of "?e\<lparr>ListenPacket := \<lambda>_ _. Some denied\<rparr>" denied g0 target4 request4]
      C5_setup_errors_abort [of "?e\<lparr>Marshal := \<lambda>_. Inl denied\<rparr>" denied g0 target4 request4]
      C5_setup_errors_abort [of "?e\<lparr>WriteTo := \<lambda>_ _. Some denied\<rparr>" denied g0 target4 request4]
      C5_setup_errors_abort [of "?e\<lparr>Marshal := no_reply_Marshal\<rparr>" denied g0 target4 request4]
      req req' rep'
    by (simp add: sample_env_def)
qed

text \<open>
  C6. A call of \<^verbatim>\<open>getICMPSequence\<close> adds one to the 16-bit counter, modulo 65536, and
  returns the new value; so 65536 or fewer calls made one after the other return
  pairwise distinct values, and the call that finds 65535 returns 0. Under any schedule
  of any number of concurrent callers, the values returned, in the order they are read,
  are those of as many calls made one after the other (none is lost, and none repeats
  within 65536 of them), and when no call is in progress the counter has advanced by
  the number of calls.
\<close>

theorem C6_sequence_generator:
  "fst (getICMPSequence g) = icmpSequence g + 1 \<and>
   icmpSequence (snd (getICMPSequence g)) = icmpSequence g + 1 \<and>
   unat (fst (getICMPSequence g)) = (unat (icmpSequence g) + 1) mod 65536 \<and>
   (n \<le> 65536 \<longrightarrow> distinct (fst (calls n g))) \<and>
   (icmpSequence g = 65535 \<longrightarrow> fst (getICMPSequence g) = 0) \<and>
   map snd (returned (run_schedule sched (init_sys g m))) =
     fst (calls (length (returned (run_schedule sched (init_sys g m)))) g) \<and>
   (length (returned (run_schedule sched (init_sys g m))) \<le> 65536 \<longrightarrow>
      distinct (map snd (returned (run_schedule sched (init_sys g m))))) \<and>
   (\<not> locked (run_schedule sched (init_sys g m)) \<longrightarrow>
      icmpSequence (shared (run_schedule sched (init_sys g m))) =
      icmpSequence (snd (calls (length (returned (run_schedule sched (init_sys g m)))) g)))"
proof (intro conjI impI)
  show "fst (getICMPSequence g) = icmpSequence g + 1"
    and "icmpSequence (snd (getICMPSequence g)) = icmpSequence g + 1"
    by (simp_all add: getICMPSequence_value)
  show "unat (fst (getICMPSequence g)) = (unat (icmpSequence g) + 1) mod 65536"
    by (simp add: getICMPSequence_value unat_word_ariths)
  show "distinct (fst (calls n g))" if "n \<le> 65536"
    using that by (rule calls_distinct)
  show "fst (getICMPSequence g) = 0" if "icmpSequence g = 65535"
    using that by (simp add: getICMPSequence_value)
  show "map snd (returned (run_schedule sched (init_sys g m))) =
     fst (calls (length (returned (run_schedule sched (init_sys g m)))) g)"
    by (rule run_returned)
  show "distinct (map snd (returned (run_schedule sched (init_sys g m))))"
    if "length (returned (run_schedule sched (init_sys g m))) \<le> 65536"
    using calls_distinct [OF that, of g] by (simp only: run_returned [symmetric])
  show "icmpSequence (shared (run_schedule sched (init_sys g m))) =
      icmpSequence (snd (calls (length (returned (run_schedule sched (init_sys g m)))) g))"
    if "\<not> locked (run_schedule sched (init_sys g m))"
    using that by (rule run_quiescent)
qed

theorem C6_sequence_generator_witness:
  "distinct (fst (calls 3 g0)) \<and> fst (getICMPSequence g0) = 0 \<and>
   map snd (returned (run_schedule two_callers (init_sys g0 2))) = [0, 1] \<and>
   distinct (map snd (returned (run_schedule two_callers (init_sys g0 2)))) \<and>
   icmpSequence (shared (run_schedule two_callers (init_sys g0 2))) = 1"
proof -
  have n: "(3 :: nat) \<le> 65536" by simp
  have w: "icmpSequence g0 = 65535" by (simp add: g0_def)
  have l: "length (returned (run_schedule two_callers (init_sys g0 2))) \<le> 65536"
    by (simp add: run_two_callers)
  have q: "\<not> locked (run_schedule two_callers (init_sys g0 2))"
    by (simp add: run_two_callers)
  note t = C6_sequence_generator [of g0 3 two_callers 2]
  have 1: "distinct (fst (calls 3 g0))"
    using t n by blast
  have 2: "fst (getICMPSequence g0) = 0"
    using t w by blast
  have 3: "distinct (map snd (returned (run_schedule two_callers (init_sys g0 2))))"
    using t l by blast
  have 4: "icmpSequence (shared (run_schedule two_callers (init_sys g0 2))) =
      icmpSequence (snd (calls (length (returned (run_schedule two_callers (init_sys g0 2)))) g0))"
    using t q by blast
  show ?thesis using 1 2 3 4 by (simp add: run_two_callers)
qed

text \<open>
  C7. As stated the claim fails: the time passed to \<^verbatim>\<open>SetReadDeadline\<close> is not the
  context's deadline when the two readings of the clock on line 53 differ. In the sample
  environment the deadline is the wall-only time 64000000005000000000, the two readings
  are 150 ns apart, and the time passed has the wall reading 64000000004999999850.
\<close>

theorem C7_read_deadline_counterexample:
  "fst (ctx_Deadline (sample_env target4 [])) =
     \<lparr>wall = 64000000005000000000, monotonic = None\<rparr> \<and>
   deadlines_set (trace_of (ProbeICMP (sample_env target4 []) g0)) =
     [\<lparr>wall = 64000000004999999850, monotonic = Some 11999999850\<rparr>] \<and>
   deadlines_set (trace_of (ProbeICMP (sample_env target4 []) g0)) \<noteq>
     [fst (ctx_Deadline (sample_env target4 []))] \<and>
   \<not> Time_Equal \<lparr>wall = 64000000004999999850, monotonic = Some 11999999850\<rparr>
        (fst (ctx_Deadline (sample_env target4 [])))"
proof -
  have d: "fst (ctx_Deadline (sample_env target4 [])) =
     \<lparr>wall = 64000000005000000000, monotonic = None\<rparr>"
    by (simp add: sample_env_def)
  have p: "deadlines_set (trace_of (ProbeICMP (sample_env target4 []) g0)) =
     [\<lparr>wall = 64000000004999999850, monotonic = Some 11999999850\<rparr>]"
    by (simp add: sample_run4 deadlines_set_append sample_probe_deadline)
  show ?thesis
    unfolding p d by (simp add: Time_Equal_def)
qed

text \<open>
  C7, amended. For a context whose deadline is \<open>D\<close>, the only time ever passed to
  \<^verbatim>\<open>SetReadDeadline\<close> is \<open>Now_1.Add(D.Sub(Now_2))\<close>, where \<open>Now_1\<close> and \<open>Now_2\<close> are the
  two readings of the clock taken at entry; it is passed once when resolution, open,
  marshals and send succeed. When \<open>D\<close> and \<open>Now_2\<close> both carry a monotonic reading (a
  deadline made from a timeout), the duration added to \<open>Now_1\<close> is the difference of the
  monotonic readings: the time passed has the wall reading of \<open>Now_1\<close> plus that
  difference and, while it keeps one, the monotonic reading of \<open>D\<close> less the time
  between the two readings on the monotonic clock. When \<open>D\<close> or \<open>Now_2\<close> is a wall-only
  time, its wall reading is that of \<open>D\<close> less the time between the two readings on the
  wall clock. With the differences in the range of a duration, the time passed equals
  the context's deadline (as \<^verbatim>\<open>Equal\<close> compares them) exactly when the two readings
  coincide, on the monotonic clock in the first case and for a wall-only \<open>D\<close> on the wall
  clock. It is fixed at entry from the caller's deadline and not measured from the start
  of the listening phase.
\<close>

theorem C7_read_deadline:
  assumes "ctx_Deadline env = (D, ok)"
  shows
   "set (deadlines_set (trace_of (ProbeICMP env g)))
      \<subseteq> {Time_Add (Now_1 env) (Time_Sub D (Now_2 env))}
    \<and>
    (sent_ok env g ip wb0 wb \<longrightarrow>
       deadlines_set (trace_of (ProbeICMP env g)) =
         [Time_Add (Now_1 env) (Time_Sub D (Now_2 env))])
    \<and>
    (monotonic D = Some md \<and> monotonic (Now_2 env) = Some m2 \<and>
     minDuration \<le> md - m2 \<and> md - m2 \<le> maxDuration \<longrightarrow>
       wall (Time_Add (Now_1 env) (Time_Sub D (Now_2 env))) = wall (Now_1 env) + (md - m2))
    \<and>
    (monotonic D = Some md \<and> monotonic (Now_2 env) = Some m2 \<and>
     minDuration \<le> md - m2 \<and> md - m2 \<le> maxDuration \<and>
     monotonic (Now_1 env) = Some m1 \<and> packed_wall (wall (Now_1 env) + (md - m2)) \<and>
     minDuration \<le> md - (m2 - m1) \<and> md - (m2 - m1) \<le> maxDuration \<longrightarrow>
       monotonic (Time_Add (Now_1 env) (Time_Sub D (Now_2 env))) = Some (md - (m2 - m1)) \<and>
       (Time_Equal (Time_Add (Now_1 env) (Time_Sub D (Now_2 env))) D \<longleftrightarrow> m1 = m2))
    \<and>
    ((monotonic D = None \<or> monotonic (Now_2 env) = None) \<and>
     minDuration \<le> wall D - wall (Now_2 env) \<and> wall D - wall (Now_2 env) \<le> maxDuration \<longrightarrow>
       wall (Time_Add (Now_1 env) (Time_Sub D (Now_2 env))) =
         wall D - (wall (Now_2 env) - wall (Now_1 env)))
    \<and>
    (monotonic D = None \<and>
     minDuration \<le> wall D - wall (Now_2 env) \<and> wall D - wall (Now_2 env) \<le> maxDuration \<longrightarrow>
       (Time_Equal (Time_Add (Now_1 env) (Time_Sub D (Now_2 env))) D \<longleftrightarrow>
          wall (Now_1 env) = wall (Now_2 env)))"
proof (intro conjI impI)
  show "set (deadlines_set (trace_of (ProbeICMP env g)))
      \<subseteq> {Time_Add (Now_1 env) (Time_Sub D (Now_2 env))}"
    using deadlines_set_any [of env g] by (simp only: probe_deadline_eq [OF assms])
next
  assume "sent_ok env g ip wb0 wb"
  from deadlines_set_sent [OF this]
  show "deadlines_set (trace_of (ProbeICMP env g)) =
         [Time_Add (Now_1 env) (Time_Sub D (Now_2 env))]"
    by (simp only: probe_deadline_eq [OF assms])
next
  assume "monotonic D = Some md \<and> monotonic (Now_2 env) = Some m2 \<and>
     minDuration \<le> md - m2 \<and> md - m2 \<le> maxDuration"
  then have "Time_Sub D (Now_2 env) = md - m2"
    by (simp add: Time_Sub_monotonic saturate_in_range)
  then show "wall (Time_Add (Now_1 env) (Time_Sub D (Now_2 env))) = wall (Now_1 env) + (md - m2)"
    by simp
next
  assume a: "monotonic D = Some md \<and> monotonic (Now_2 env) = Some m2 \<and>
     minDuration \<le> md - m2 \<and> md - m2 \<le> maxDuration \<and>
     monotonic (Now_1 env) = Some m1 \<and> packed_wall (wall (Now_1 env) + (md - m2)) \<and>
     minDuration \<le> md - (m2 - m1) \<and> md - (m2 - m1) \<le> maxDuration"
  then have s: "Time_Sub D (Now_2 env) = md - m2"
    by (simp add: Time_Sub_monotonic saturate_in_range)
  have "m1 + (md - m2) = md - (m2 - m1)" by simp
  then show m: "monotonic (Time_Add (Now_1 env) (Time_Sub D (Now_2 env))) = Some (md - (m2 - m1))"
    using a monotonic_Time_Add [of "Now_1 env" m1 "md - m2"] by (simp add: s)
  show "Time_Equal (Time_Add (Now_1 env) (Time_Sub D (Now_2 env))) D \<longleftrightarrow> m1 = m2"
    using a by (auto simp: Time_Equal_def m)
next
  assume a: "(monotonic D = None \<or> monotonic (Now_2 env) = None) \<and>
     minDuration \<le> wall D - wall (Now_2 env) \<and> wall D - wall (Now_2 env) \<le> maxDuration"
  then have "Time_Sub D (Now_2 env) = wall D - wall (Now_2 env)"
    using Time_Sub_wall [of D "Now_2 env"] by (simp add: saturate_in_range)
  then show "wall (Time_Add (Now_1 env) (Time_Sub D (Now_2 env))) =
         wall D - (wall (Now_2 env) - wall (Now_1 env))"
    by simp
next
  assume a: "monotonic D = None \<and>
     minDuration \<le> wall D - wall (Now_2 env) \<and> wall D - wall (Now_2 env) \<le> maxDuration"
  then have "Time_Sub D (Now_2 env) = wall D - wall (Now_2 env)"
    using Time_Sub_wall [of D "Now_2 env"] by (simp add: saturate_in_range)
  then have "wall (Time_Add (Now_1 env) (Time_Sub D (Now_2 env))) =
         wall D - (wall (Now_2 env) - wall (Now_1 env))"
    by simp
  moreover have "Time_Equal t D \<longleftrightarrow> wall t = wall D" for t
    using a by (simp add: Time_Equal_def split: option.splits)
  ultimately show "Time_Equal (Time_Add (Now_1 env) (Time_Sub D (Now_2 env))) D \<longleftrightarrow>
          wall (Now_1 env) = wall (Now_2 env)"
    by auto
qed

theorem C7_read_deadline_witness:
  "map wall (deadlines_set (trace_of (ProbeICMP (sample_env target4 []) g0))) =
     [64000000005000000000 - (64000000000000000150 - 64000000000000000000)] \<and>
   map wall (deadlines_set (trace_of (ProbeICMP timeout_env g0))) =
     [64000000000000000000 + (12000000010 - 7000000150)] \<and>
   map monotonic (deadlines_set (trace_of (ProbeICMP timeout_env g0))) =
     [Some (12000000010 - (7000000150 - 7000000000))]"
proof -
  let ?env = "sample_env target4 []"
  let ?D = "\<lparr>wall = 64000000005000000000, monotonic = None\<rparr>"
  let ?D' = "\<lparr>wall = 64000000005000000000, monotonic = Some 12000000010\<rparr>"
  have d: "ctx_Deadline ?env = (?D, True)" and d': "ctx_Deadline timeout_env = (?D', True)"
    and w1: "wall (Now_1 ?env) = 64000000000000000000"
    and w2: "wall (Now_2 ?env) = 64000000000000000150"
    and n1: "Now_1 timeout_env = Now_1 ?env" and n2: "Now_2 timeout_env = Now_2 ?env"
    by (simp_all add: sample_env_def timeout_env_def)
  have ok': "sent_ok timeout_env g0 target4 request4 reply4"
    using sample_sent_ok4 [of "[]"] by (simp add: timeout_env_def)
  have h5: "(monotonic ?D = None \<or> monotonic (Now_2 ?env) = None) \<and>
     minDuration \<le> wall ?D - wall (Now_2 ?env) \<and> wall ?D - wall (Now_2 ?env) \<le> maxDuration"
    by (simp add: w2 minDuration_def maxDuration_def)
  have h4: "monotonic ?D' = Some 12000000010 \<and> monotonic (Now_2 timeout_env) = Some 7000000150 \<and>
     minDuration \<le> 12000000010 - 7000000150 \<and> 12000000010 - 7000000150 \<le> maxDuration \<and>
     monotonic (Now_1 timeout_env) = Some 7000000000 \<and>
     packed_wall (wall (Now_1 timeout_env) + (12000000010 - 7000000150)) \<and>
     minDuration \<le> 12000000010 - (7000000150 - 7000000000) \<and>
     12000000010 - (7000000150 - 7000000000) \<le> maxDuration"
    by (simp add: n1 n2 w1 minDuration_def maxDuration_def packed_wall_def wallToInternal_def)
       (simp add: sample_env_def)
  then have h3: "monotonic ?D' = Some 12000000010 \<and> monotonic (Now_2 timeout_env) = Some 7000000150 \<and>
     minDuration \<le> 12000000010 - 7000000150 \<and> 12000000010 - 7000000150 \<le> maxDuration"
    by blast
  note t = C7_read_deadline [OF d, of g0 target4 request4 reply4]
  note t' = C7_read_deadline [OF d', of g0 target4 request4 reply4 12000000010 7000000150 7000000000]
  have 1: "deadlines_set (trace_of (ProbeICMP ?env g0)) =
        [Time_Add (Now_1 ?env) (Time_Sub ?D (Now_2 ?env))]"
    by (rule t [THEN conjunct2, THEN conjunct1, THEN mp, OF sample_sent_ok4])
  have 2: "wall (Time_Add (Now_1 ?env) (Time_Sub ?D (Now_2 ?env))) =
        wall ?D - (wall (Now_2 ?env) - wall (Now_1 ?env))"
    by (rule t [THEN conjunct2, THEN conjunct2, THEN conjunct2, THEN conjunct2, THEN conjunct1,
          THEN mp, OF h5])
  have 3: "deadlines_set (trace_of (ProbeICMP timeout_env g0)) =
        [Time_Add (Now_1 timeout_env) (Time_Sub ?D' (Now_2 timeout_env))]"
    by (rule t' [THEN conjunct2, THEN conjunct1, THEN mp, OF ok'])
  have 4: "wall (Time_Add (Now_1 timeout_env) (Time_Sub ?D' (Now_2 timeout_env))) =
        wall (Now_1 timeout_env) + (12000000010 - 7000000150)"
    by (rule t' [THEN conjunct2, THEN conjunct2, THEN conjunct1, THEN mp, OF h3])
  have 5: "monotonic (Time_Add (Now_1 timeout_env) (Time_Sub ?D' (Now_2 timeout_env))) =
        Some (12000000010 - (7000000150 - 7000000000))"
    by (rule t' [THEN conjunct2, THEN conjunct2, THEN conjunct2, THEN conjunct1, THEN mp, OF h4,
          THEN conjunct1])
  have "map wall (deadlines_set (trace_of (ProbeICMP ?env g0))) =
      [64000000005000000000 - (64000000000000000150 - 64000000000000000000)]"
    unfolding 1 using 2 by (simp only: list.map w1 w2 Time.simps)
  moreover have "map wall (deadlines_set (trace_of (ProbeICMP timeout_env g0))) =
      [64000000000000000000 + (12000000010 - 7000000150)]"
    unfolding 3 using 4 by (simp only: list.map n1 w1)
  moreover have "map monotonic (deadlines_set (trace_of (ProbeICMP timeout_env g0))) =
      [Some (12000000010 - (7000000150 - 7000000000))]"
    unfolding 3 using 5 by (simp only: list.map)
  ultimately show ?thesis by blast
qed

text \<open>
  C8. Whenever \<open>ProbeICMP\<close> returns, whatever the outcome and whatever stage failed,
  every socket it opened has been closed: the trace holds as many \<open>Close\<close> calls as
  successful \<open>ListenPacket\<close> calls.
\<close>

theorem C8_socket_closed_on_return:
  assumes "success_of (ProbeICMP env g) \<noteq> None"
  shows "open_sockets (trace_of (ProbeICMP env g)) = 0"
proof (cases "chooseProtocol env")
  case (Inl e)
  then show ?thesis by (simp add: ProbeICMP_resolve_err)
next
  case (Inr ip)
  note ip = this
  show ?thesis
  proof (cases "ListenPacket env (network_of ip) (address_of ip)")
    case (Some e)
    then show ?thesis using ip by (simp add: ProbeICMP_listen_err)
  next
    case None
    note listen = this
    show ?thesis
    proof (cases "Marshal env (request_message env g ip)")
      case (Inl e)
      then show ?thesis using ip listen
        by (simp add: ProbeICMP_marshal_request_err open_sockets_append)
    next
      case (Inr wb0)
      note req = this
      show ?thesis
      proof (cases "WriteTo env wb0 ip")
        case (Some e)
        then show ?thesis using ip listen req
          by (simp add: ProbeICMP_write_err open_sockets_append)
      next
        case None
        note wr = this
        show ?thesis
        proof (cases "Marshal env (reply_message env g ip)")
          case (Inl e)
          then show ?thesis using ip listen req wr
            by (simp add: ProbeICMP_marshal_reply_err open_sockets_append)
        next
          case (Inr wb)
          note rep = this
          show ?thesis
          proof (cases "SetReadDeadline env (probe_deadline env)")
            case (Some e)
            then show ?thesis using ip listen req wr rep
              by (simp add: ProbeICMP_deadline_err open_sockets_append)
          next
            case None
            from ProbeICMP_listening [OF ip listen req wr rep None] assms
            show ?thesis by (simp add: open_sockets_append)
          qed
        qed
      qed
    qed
  qed
qed

theorem C8_socket_closed_on_return_witness:
  "success_of (ProbeICMP (sample_env target4 [ReadErr io_timeout]) g0) \<noteq> None \<and>
   open_sockets (trace_of (ProbeICMP (sample_env target4 [ReadErr io_timeout]) g0)) = 0"
proof -
  have h: "success_of (ProbeICMP (sample_env target4 [ReadErr io_timeout]) g0) \<noteq> None"
    by (simp add: sample_run4 io_timeout_def)
  show ?thesis using h C8_socket_closed_on_return [OF h] by simp
qed

text \<open>
  C9. \<open>ProbeICMP\<close> returns true only when the number of bytes read for the last packet
  equals the length of the expected reply. A packet whose bytes read are a strict prefix
  of the expected reply, or extend it, is never a match: the outcome is the one of the
  script without it.
\<close>

theorem C9_match_needs_equal_length:
  "(sent_ok env g ip wb0 wb \<and> success_of (ProbeICMP env g) = Some True \<longrightarrow>
      reads_issued (trace_of (ProbeICMP env g)) \<noteq> [] \<and>
      bytes_read (last (reads_issued (trace_of (ProbeICMP env g)))) = Some (length wb))
   \<and>
   (sent_ok env g ip wb0 wb \<and>
    (strict_prefix (take 1500 data) wb \<or> strict_prefix wb (take 1500 data)) \<longrightarrow>
      success_of (ProbeICMP (env\<lparr>ReadFrom := pre @ ReadOK data peer # post\<rparr>) g) =
      success_of (ProbeICMP (env\<lparr>ReadFrom := pre @ post\<rparr>) g))"
proof (intro conjI impI)
  assume a: "sent_ok env g ip wb0 wb \<and> success_of (ProbeICMP env g) = Some True"
  then have ok: "sent_ok env g ip wb0 wb" and t: "success_of (ProbeICMP env g) = Some True"
    by simp_all
  have dl: "SetReadDeadline env (probe_deadline env) = None"
  proof (cases "SetReadDeadline env (probe_deadline env)")
    case None
    then show ?thesis .
  next
    case (Some e)
    from ProbeICMP_sent_deadline_err [OF ok Some] t show ?thesis by simp
  qed
  have "first_verdict ip (replyType_of ip) wb (ReadFrom env) = Some True"
    using t by (simp add: success_listening [OF ok dl])
  from issued_last [OF this]
  have ne: "reads_issued (loop_trace ip (replyType_of ip) wb (ReadFrom env)) \<noteq> []"
    and v: "verdict ip (replyType_of ip) wb
              (last (reads_issued (loop_trace ip (replyType_of ip) wb (ReadFrom env)))) = Some True"
    by simp_all
  show "reads_issued (trace_of (ProbeICMP env g)) \<noteq> []"
    using ne by (simp add: reads_issued_listening [OF ok dl])
  show "bytes_read (last (reads_issued (trace_of (ProbeICMP env g)))) = Some (length wb)"
    using verdict_True_bytes_read [OF v] by (simp add: reads_issued_listening [OF ok dl])
next
  assume a: "sent_ok env g ip wb0 wb \<and>
    (strict_prefix (take 1500 data) wb \<or> strict_prefix wb (take 1500 data))"
  then have ok: "sent_ok env g ip wb0 wb" by simp
  from a have "length (take 1500 data) < length wb \<or> length wb < length (take 1500 data)"
    using prefix_length_less by blast
  then have len: "length (take 1500 data) \<noteq> length wb" by linarith
  show "success_of (ProbeICMP (env\<lparr>ReadFrom := pre @ ReadOK data peer # post\<rparr>) g) =
      success_of (ProbeICMP (env\<lparr>ReadFrom := pre @ post\<rparr>) g)"
  proof (cases "SetReadDeadline env (probe_deadline env)")
    case None
    have "success_of (ProbeICMP (env\<lparr>ReadFrom := rs\<rparr>) g) =
          first_verdict ip (replyType_of ip) wb rs" for rs
      using success_listening [of "env\<lparr>ReadFrom := rs\<rparr>" g ip wb0 wb] ok None by simp
    then show ?thesis
      using length_mismatch_verdict [OF len] by (simp add: first_verdict_skip)
  next
    case (Some e)
    have "success_of (ProbeICMP (env\<lparr>ReadFrom := rs\<rparr>) g) = Some False" for rs
      using ProbeICMP_sent_deadline_err [of "env\<lparr>ReadFrom := rs\<rparr>" g ip wb0 wb e] ok Some
      by simp
    then show ?thesis by simp
  qed
qed

theorem C9_match_needs_equal_length_witness:
  "bytes_read (last (reads_issued (trace_of (ProbeICMP (sample_env target4 [echo4]) g0)))) =
     Some 36 \<and>
   success_of (ProbeICMP (sample_env target4 [ReadOK header4 target4]) g0) = None \<and>
   success_of (ProbeICMP (sample_env target4 [ReadOK (reply4 @ [0, 0]) target4]) g0) = None"
proof -
  let ?env = "sample_env target4 [echo4]"
  have a: "sent_ok ?env g0 target4 request4 reply4 \<and> success_of (ProbeICMP ?env g0) = Some True"
    using sample_sent_ok4 verdict_echo4 by (simp add: sample_run4)
  have len4: "length reply4 = 36" by (simp add: reply4_def payload_length)
  have 1: "bytes_read (last (reads_issued (trace_of (ProbeICMP ?env g0)))) = Some 36"
    using C9_match_needs_equal_length [of ?env g0 target4 request4 reply4, THEN conjunct1,
        THEN mp, OF a] len4 by simp
  have none: "success_of (ProbeICMP (sample_env target4 []) g0) = None"
    by (simp add: sample_run4)
  have upd: "(sample_env target4 [])\<lparr>ReadFrom := [] @ r # []\<rparr> = sample_env target4 [r]"
            "(sample_env target4 [])\<lparr>ReadFrom := [] @ []\<rparr> = sample_env target4 []" for r
    by (simp_all add: sample_env_def)
  have "strict_prefix (take 1500 header4) reply4"
    by (simp add: header4_def reply4_def payload_def)
  then have b: "sent_ok (sample_env target4 []) g0 target4 request4 reply4 \<and>
      (strict_prefix (take 1500 header4) reply4 \<or> strict_prefix reply4 (take 1500 header4))"
    using sample_sent_ok4 by blast
  have 2: "success_of (ProbeICMP (sample_env target4 [ReadOK header4 target4]) g0) = None"
    using C9_match_needs_equal_length [of "sample_env target4 []" g0 target4 request4 reply4
        header4 "[]" target4 "[]", THEN conjunct2, THEN mp, OF b] none
    by (simp only: upd)
  have "strict_prefix reply4 (take 1500 (reply4 @ [0, 0]))"
    by (simp add: len4 strict_prefix_def)
  then have c: "sent_ok (sample_env target4 []) g0 target4 request4 reply4 \<and>
      (strict_prefix (take 1500 (reply4 @ [0, 0])) reply4 \<or>
       strict_prefix reply4 (take 1500 (reply4 @ [0, 0])))"
    using sample_sent_ok4 by blast
  have 3: "success_of (ProbeICMP (sample_env target4 [ReadOK (reply4 @ [0, 0]) target4]) g0) = None"
    using C9_match_needs_equal_length [of "sample_env target4 []" g0 target4 request4 reply4
        "reply4 @ [0, 0]" "[]" target4 "[]", THEN conjunct2, THEN mp, OF c] none
    by (simp only: upd)
  show ?thesis using 1 2 3 by simp
qed

text \<open>
  C10. When the context carries no deadline (\<^verbatim>\<open>Deadline()\<close> gives the zero time and
  \<open>ok = false\<close>), the \<open>ok\<close> flag is ignored and the deadline is computed from the zero
  time: with a clock later than \<open>2 ^ 63\<close> ns after the zero time its wall reading is that
  of \<open>Now_1\<close> less \<open>2 ^ 63\<close>, so it is not the zero time and it lies before \<open>Now_1\<close>. So
  when resolution, open, marshals and send succeed, the probe returns false: the first
  receive, whatever arrives after the first reading of the clock, times out.
\<close>

theorem C10_no_deadline_times_out:
  assumes "ctx_Deadline env = (zero_Time, False)"
    and "2 ^ 63 < wall (Now_1 env)" and "wall (Now_1 env) \<le> wall (Now_2 env)"
    and "sent_ok env g ip wb0 wb"
    and "ReadFrom env = deliver (probe_deadline env) arrivals"
    and "\<forall>(at, r)\<in>set arrivals. not_after (Now_1 env) at"
  shows "success_of (ProbeICMP env g) = Some False \<and>
         \<not> IsZero (probe_deadline env) \<and>
         wall (probe_deadline env) = wall (Now_1 env) - 2 ^ 63 \<and>
         Time_Sub (probe_deadline env) (Now_1 env) < 0 \<and>
         (SetReadDeadline env (probe_deadline env) = None \<longrightarrow>
            reads_issued (trace_of (ProbeICMP env g)) = [ReadErr io_timeout]) \<and>
         ProbeICMP (env\<lparr>ctx_Deadline := (zero_Time, True)\<rparr>) g = ProbeICMP env g"
proof -
  note w = no_deadline_wall(1) [OF assms(1-3)]
  have nz: "\<not> IsZero (probe_deadline env)"
    using assms(2) by (simp add: IsZero_def w)
  have past: "Time_Sub (probe_deadline env) (Now_1 env) < 0"
  proof -
    have "wall (probe_deadline env) - wall (Now_1 env) = minDuration"
      by (simp add: w minDuration_def)
    moreover have "m - 2 ^ 63 - m = minDuration" for m :: int
      by (simp add: minDuration_def)
    ultimately show ?thesis
      using no_deadline_wall(2) [OF assms(1-3)]
      by (auto simp: Time_Sub_def saturate_def minDuration_def maxDuration_def
          split: option.splits)
  qed
  have "\<forall>(at, r)\<in>set arrivals. Time_Sub (probe_deadline env) at \<le> 0"
    using assms(6) no_deadline_reached [OF assms(1-3)] by fastforce
  from deliver_reached [OF nz this]
  have script: "ReadFrom env = [ReadErr io_timeout]" by (simp add: assms(5))
  have s: "success_of (ProbeICMP env g) = Some False"
  proof (cases "SetReadDeadline env (probe_deadline env)")
    case None
    from ProbeICMP_sent_ok [OF assms(4) None] show ?thesis
      by (simp add: script io_timeout_def)
  next
    case (Some e)
    from ProbeICMP_sent_deadline_err [OF assms(4) Some] show ?thesis by simp
  qed
  have r: "SetReadDeadline env (probe_deadline env) = None \<longrightarrow>
            reads_issued (trace_of (ProbeICMP env g)) = [ReadErr io_timeout]"
  proof
    assume "SetReadDeadline env (probe_deadline env) = None"
    from reads_issued_listening [OF assms(4) this] show
      "reads_issued (trace_of (ProbeICMP env g)) = [ReadErr io_timeout]"
      by (simp add: script io_timeout_def)
  qed
  have "env\<lparr>ctx_Deadline := (zero_Time, False)\<rparr> = env" using assms(1) by simp
  then have "ProbeICMP (env\<lparr>ctx_Deadline := (zero_Time, True)\<rparr>) g = ProbeICMP env g"
    using ProbeICMP_ok_flag [where env = env and D = zero_Time and ok = True and g = g and ok' = False]
    by simp
  with s nz w past r show ?thesis by blast
qed

theorem C10_no_deadline_times_out_witness:
  "success_of (ProbeICMP no_deadline_env g0) = Some False \<and>
   reads_issued (trace_of (ProbeICMP no_deadline_env g0)) = [ReadErr io_timeout] \<and>
   probe_deadline no_deadline_env = \<lparr>wall = 54776627963145224192, monotonic = None\<rparr>"
proof -
  have pd: "probe_deadline no_deadline_env = \<lparr>wall = 54776627963145224192, monotonic = None\<rparr>"
    by (simp add: no_deadline_env_def probe_deadline_def sample_env_def Time_Add_def
        Time_Sub_def zero_Time_def saturate_def minDuration_def maxDuration_def
        packed_wall_def wallToInternal_def)
  have 1: "ctx_Deadline no_deadline_env = (zero_Time, False)"
    and 2: "2 ^ 63 < wall (Now_1 no_deadline_env)"
    and 3: "wall (Now_1 no_deadline_env) \<le> wall (Now_2 no_deadline_env)"
    and 7: "SetReadDeadline no_deadline_env (probe_deadline no_deadline_env) = None"
    by (simp_all add: no_deadline_env_def sample_env_def)
  have ok: "sent_ok no_deadline_env g0 target4 request4 reply4"
    using sample_sent_ok4 [of "[]"] by (simp add: no_deadline_env_def)
  have 5: "ReadFrom no_deadline_env =
           deliver (probe_deadline no_deadline_env)
             [(\<lparr>wall = 64000000000020000000, monotonic = Some 7020000000\<rparr>, echo4)]"
    unfolding pd by (simp add: no_deadline_env_def)
  have 6: "\<forall>(at, r)\<in>set [(\<lparr>wall = 64000000000020000000, monotonic = Some 7020000000\<rparr>, echo4)].
             not_after (Now_1 no_deadline_env) at"
    by (simp add: no_deadline_env_def sample_env_def not_after_def)
  note t = C10_no_deadline_times_out [OF 1 2 3 ok 5 6]
  from t [THEN conjunct1]
    t [THEN conjunct2, THEN conjunct2, THEN conjunct2, THEN conjunct2, THEN conjunct1, THEN mp, OF 7] pd
  show ?thesis by simp
qed

end
